theory Spec2Isabelle
  imports Complex_Main
begin

section \<open>Pitch classifier\<close>

text \<open>
  The tuner of \<^verbatim>\<open>src/App.js\<close>. JavaScript numbers are modelled as reals: the rounding
  of the IEEE doubles is abstracted away, and \<^verbatim>\<open>Infinity\<close>, which the program uses as the
  starting value of \<^verbatim>\<open>minDiff\<close>, is a constructor of its own. The object literal
  \<^verbatim>\<open>TUNING_FREQUENCIES\<close> has six fixed string keys: the keys are a datatype, the object a
  total function on it, and \<^verbatim>\<open>Object.keys\<close> lists the keys in insertion order.
\<close>

datatype pitch_class = E2 | A2 | D3 | G3 | B3 | E4

fun TUNING_FREQUENCIES :: "pitch_class \<Rightarrow> real" where
  "TUNING_FREQUENCIES E2 = 82.41"
| "TUNING_FREQUENCIES A2 = 110.00"
| "TUNING_FREQUENCIES D3 = 146.83"
| "TUNING_FREQUENCIES G3 = 196.00"
| "TUNING_FREQUENCIES B3 = 246.94"
| "TUNING_FREQUENCIES E4 = 329.63"

text \<open>The key of a pitch class, as the string the program shows and stores.\<close>

fun key :: "pitch_class \<Rightarrow> string" where
  "key E2 = ''E2''"
| "key A2 = ''A2''"
| "key D3 = ''D3''"
| "key G3 = ''G3''"
| "key B3 = ''B3''"
| "key E4 = ''E4''"

definition noteNames :: "pitch_class list" where
  "noteNames = [E2, A2, D3, G3, B3, E4]"

text \<open>\<^verbatim>\<open>minDiff\<close>: \<^verbatim>\<open>Infinity\<close> before the first comparison, a difference in hertz after.\<close>

datatype min_diff = Infinity | Hertz real

fun less_than :: "real \<Rightarrow> min_diff \<Rightarrow> bool" where
  "less_than diff Infinity = True"
| "less_than diff (Hertz m) = (diff < m)"

text \<open>
  One round of the loop \<^verbatim>\<open>for (const note of noteNames)\<close>, on the pair
  \<^verbatim>\<open>(closestNote, minDiff)\<close>.
\<close>

definition compare_note :: "real \<Rightarrow> pitch_class \<times> min_diff \<Rightarrow> pitch_class \<Rightarrow> pitch_class \<times> min_diff" where
  "compare_note frequency acc note_name =
     (let diff = \<bar>frequency - TUNING_FREQUENCIES note_name\<bar>
      in if less_than diff (snd acc) then (note_name, Hertz diff) else acc)"

definition closest :: "real \<Rightarrow> pitch_class list \<Rightarrow> pitch_class \<times> min_diff" where
  "closest frequency names = foldl (compare_note frequency) (names ! 0, Infinity) names"

record note_and_cents =
  note_label :: string
  cents :: int

definition getNoteAndCents :: "real \<Rightarrow> note_and_cents" where
  "getNoteAndCents frequency =
     (if frequency \<le> 0 then \<lparr>note_label = ''--'', cents = 0\<rparr>
      else
        let closestNote = fst (closest frequency noteNames);
            targetFreq = TUNING_FREQUENCIES closestNote
        in \<lparr>note_label = key closestNote, cents = \<lfloor>1200 * log 2 (frequency / targetFreq)\<rfloor>\<rparr>)"

section \<open>The session\<close>

text \<open>
  The component \<^verbatim>\<open>GuitarTuner\<close>: its React state, its refs, the closure variable
  \<^verbatim>\<open>previousPitch\<close>, and what the host holds for it. An object the program holds in a ref
  is a handle (a number that names it), the ref is \<open>None\<close> while it is \<^verbatim>\<open>null\<close>.
  Everything the host decides is an input: what the pitch finder returns or throws, what
  \<^verbatim>\<open>Date.now()\<close> reads, the id \<^verbatim>\<open>requestAnimationFrame\<close> hands out, whether a call on a host
  object throws.
\<close>

type_synonym handle = nat

datatype exn = Exception string

record data_point =
  time :: int
  frequency :: real
  point_note :: string

text \<open>Calls on host objects that release something, in the order they were made.\<close>

datatype call =
    SourceDisconnect handle
  | AnalyserDisconnect handle
  | AudioContextClose handle
  | CancelAnimationFrame nat
  | PlayContextClose handle

text \<open>An oscillator with its gain node, as \<^verbatim>\<open>playFrequency\<close> builds them.\<close>

record tone =
  tone_context :: handle
  tone_frequency :: real
  gain :: real
  sounding :: bool

text \<open>
  The two callbacks \<^verbatim>\<open>playFrequency\<close> hands to \<^verbatim>\<open>setTimeout\<close>, each for the tone (by its
  position in \<open>tones\<close>) whose oscillator and gain node it closes over.
\<close>

datatype timer = Fade nat | Finish nat

record tuner =
  note_state :: string
  cents_state :: int
  status :: string
  playing :: bool
  frequencyData :: "data_point list"
  audioContextRef :: "handle option"
  audioSourceRef :: "handle option"
  analyserRef :: "handle option"
  animationFrameRef :: "nat option"
  smoothingRef :: real
  pitchFinderRef :: bool
  playContextRef :: "handle option"
  chartDataRef :: "data_point list"
  previousPitch :: real
  pendingFrame :: "nat option"
  calls :: "call list"
  tones :: "tone list"
  timers :: "timer list"

text \<open>
  The last four fields are the host's side: the animation frame request that is still
  pending, the release calls made so far, the oscillators built so far, the timeouts
  that are still pending.
\<close>

definition mounted :: tuner where
  "mounted =
     \<lparr>note_state = ''--'', cents_state = 0, status = ''Waiting for microphone access...'',
      playing = False, frequencyData = [], audioContextRef = None, audioSourceRef = None,
      analyserRef = None, animationFrameRef = None, smoothingRef = 0.7,
      pitchFinderRef = False, playContextRef = None, chartDataRef = [], previousPitch = 0,
      pendingFrame = None, calls = [], tones = [], timers = []\<rparr>"

subsection \<open>The acquisition loop\<close>

text \<open>What \<^verbatim>\<open>pitchFinderRef.current(buffer)\<close> does in a tick: throw, return \<^verbatim>\<open>null\<close>, return a number.\<close>

datatype estimate = Throws string | NoPitch | Pitch real

record tick =
  detected :: estimate
  now :: int
  frame :: nat

text \<open>The value of \<^verbatim>\<open>smoothedPitch\<close> for a number \<open>f\<close> the pitch finder returned.\<close>

definition smoothedPitch :: "tuner \<Rightarrow> real \<Rightarrow> real" where
  "smoothedPitch s f =
     (if previousPitch s = 0 then f
      else smoothingRef s * previousPitch s + (1 - smoothingRef s) * f)"

definition updatePitch :: "tick \<Rightarrow> tuner \<Rightarrow> exn option \<times> tuner" where
  "updatePitch t s =
     (if analyserRef s = None \<or> \<not> pitchFinderRef s then (None, s)
      else
        case detected t of
          Throws msg \<Rightarrow> (Some (Exception msg), s)
        | Pitch f \<Rightarrow>
            let smoothed = smoothedPitch s f;
                detectedNote = note_label (getNoteAndCents smoothed);
                detectedCents = cents (getNoteAndCents smoothed);
                newDataPoint = \<lparr>time = now t, frequency = smoothed, point_note = detectedNote\<rparr>;
                chart = chartDataRef s @ [newDataPoint]
            in (None, s\<lparr>note_state := detectedNote, cents_state := detectedCents,
                          chartDataRef := chart, frequencyData := chart,
                          previousPitch := smoothed,
                          animationFrameRef := Some (frame t), pendingFrame := Some (frame t)\<rparr>)
        | NoPitch \<Rightarrow>
            let newDataPoint = \<lparr>time = now t, frequency = 0, point_note = ''--''\<rparr>;
                chart = chartDataRef s @ [newDataPoint]
            in (None, s\<lparr>note_state := ''--'', cents_state := 0, previousPitch := 0,
                          chartDataRef := chart, frequencyData := chart,
                          animationFrameRef := Some (frame t), pendingFrame := Some (frame t)\<rparr>))"

text \<open>
  \<^verbatim>\<open>initializePitchDetection\<close>: \<^verbatim>\<open>getUserMedia\<close> rejects, or grants a stream, and then the
  audio context, the source and the analyser are built (the host's constructors are taken
  to succeed), \<^verbatim>\<open>previousPitch\<close> starts at 0 and \<^verbatim>\<open>updatePitch\<close> is called once, inside the
  \<^verbatim>\<open>try\<close>.
\<close>

datatype user_media = Rejected string | Granted handle handle handle

definition initializePitchDetection :: "user_media \<Rightarrow> tick \<Rightarrow> tuner \<Rightarrow> tuner" where
  "initializePitchDetection m t s =
     (case m of
        Rejected msg \<Rightarrow> s\<lparr>status := ''Error accessing microphone: '' @ msg\<rparr>
      | Granted context source analyser \<Rightarrow>
          (case updatePitch t
                  (s\<lparr>status := ''Microphone access granted.'', audioContextRef := Some context,
                     audioSourceRef := Some source, analyserRef := Some analyser,
                     pitchFinderRef := True, previousPitch := 0\<rparr>) of
             (None, s') \<Rightarrow> s'
           | (Some (Exception msg), s') \<Rightarrow> s'\<lparr>status := ''Error accessing microphone: '' @ msg\<rparr>))"

text \<open>
  The host runs the callback of a pending animation frame request, once. An exception
  that leaves the callback is reported and ends the run: nothing is pending after it.
\<close>

definition animation_frame :: "tick \<Rightarrow> tuner \<Rightarrow> exn option \<times> tuner" where
  "animation_frame t s =
     (case pendingFrame s of
        None \<Rightarrow> (None, s)
      | Some request \<Rightarrow> updatePitch t (s\<lparr>pendingFrame := None\<rparr>))"

fun frames :: "tick list \<Rightarrow> tuner \<Rightarrow> exn option \<times> tuner" where
  "frames [] s = (None, s)"
| "frames (t # ts) s =
     (case animation_frame t s of
        (None, s') \<Rightarrow> frames ts s'
      | (Some e, s') \<Rightarrow> (Some e, s'))"

text \<open>
  A session from the mount on: the first tick is the call in \<^verbatim>\<open>initializePitchDetection\<close>,
  every later one an animation frame.
\<close>

definition session :: "user_media \<Rightarrow> tick \<Rightarrow> tick list \<Rightarrow> exn option \<times> tuner" where
  "session m t ts = frames ts (initializePitchDetection m t mounted)"

subsection \<open>Teardown\<close>

definition and_then ::
  "(tuner \<Rightarrow> exn option \<times> tuner) \<Rightarrow> (tuner \<Rightarrow> exn option \<times> tuner) \<Rightarrow> tuner \<Rightarrow> exn option \<times> tuner" where
  "and_then first second s =
     (case first s of
        (None, s') \<Rightarrow> second s'
      | (Some e, s') \<Rightarrow> (Some e, s'))"

text \<open>A call on a host object: it throws (with a message) or it is made.\<close>

definition invoke :: "(call \<Rightarrow> string option) \<Rightarrow> call \<Rightarrow> tuner \<Rightarrow> exn option \<times> tuner" where
  "invoke throws c s =
     (case throws c of
        Some msg \<Rightarrow> (Some (Exception msg), s)
      | None \<Rightarrow> (None, s\<lparr>calls := calls s @ [c]\<rparr>))"

definition cancelled :: "nat \<Rightarrow> tuner \<Rightarrow> exn option \<times> tuner" where
  "cancelled request s =
     (None, if pendingFrame s = Some request then s\<lparr>pendingFrame := None\<rparr> else s)"

text \<open>
  The function the effect returns. \<^verbatim>\<open>if (animationFrameRef.current)\<close> tests a number: 0 is
  falsy as \<^verbatim>\<open>null\<close> is.
\<close>

definition cleanup :: "(call \<Rightarrow> string option) \<Rightarrow> tuner \<Rightarrow> exn option \<times> tuner" where
  "cleanup throws =
     and_then (\<lambda>s. case audioSourceRef s of
                      None \<Rightarrow> (None, s)
                    | Some source \<Rightarrow> invoke throws (SourceDisconnect source) s)
    (and_then (\<lambda>s. case analyserRef s of
                      None \<Rightarrow> (None, s)
                    | Some analyser \<Rightarrow> invoke throws (AnalyserDisconnect analyser) s)
    (and_then (\<lambda>s. case audioContextRef s of
                      None \<Rightarrow> (None, s)
                    | Some context \<Rightarrow> invoke throws (AudioContextClose context) s)
    (and_then (\<lambda>s. case animationFrameRef s of
                      None \<Rightarrow> (None, s)
                    | Some request \<Rightarrow>
                        if request = 0 then (None, s)
                        else and_then (invoke throws (CancelAnimationFrame request)) (cancelled request) s)
              (\<lambda>s. case playContextRef s of
                      None \<Rightarrow> (None, s)
                    | Some context \<Rightarrow> invoke throws (PlayContextClose context) s))))"

text \<open>The release calls a teardown has to make in a state: one for each handle that is set.\<close>

definition releases :: "tuner \<Rightarrow> call list" where
  "releases s =
     (case audioSourceRef s of None \<Rightarrow> [] | Some source \<Rightarrow> [SourceDisconnect source])
   @ (case analyserRef s of None \<Rightarrow> [] | Some analyser \<Rightarrow> [AnalyserDisconnect analyser])
   @ (case audioContextRef s of None \<Rightarrow> [] | Some context \<Rightarrow> [AudioContextClose context])
   @ (case animationFrameRef s of
        None \<Rightarrow> []
      | Some request \<Rightarrow> if request = 0 then [] else [CancelAnimationFrame request])
   @ (case playContextRef s of None \<Rightarrow> [] | Some context \<Rightarrow> [PlayContextClose context])"

text \<open>
  A list of release calls made in order until one throws; cancelling an animation frame
  request also takes it from the host. \<open>cleanup\<close> is compared with it below.
\<close>

fun perform :: "(call \<Rightarrow> string option) \<Rightarrow> call list \<Rightarrow> tuner \<Rightarrow> exn option \<times> tuner" where
  "perform throws [] s = (None, s)"
| "perform throws (c # cs) s =
     (case throws c of
        Some msg \<Rightarrow> (Some (Exception msg), s)
      | None \<Rightarrow>
          perform throws cs
            (case c of
               CancelAnimationFrame request \<Rightarrow> snd (cancelled request (s\<lparr>calls := calls s @ [c]\<rparr>))
             | _ \<Rightarrow> s\<lparr>calls := calls s @ [c]\<rparr>))"

subsection \<open>The tone player\<close>

text \<open>
  \<^verbatim>\<open>playFrequency\<close> is a closure of one render: the \<^verbatim>\<open>playing\<close> it tests is the value that
  render saw, its first argument here. The second is the frequency, the third the handle
  of the audio context it builds.
\<close>

definition playFrequency :: "bool \<Rightarrow> real \<Rightarrow> handle \<Rightarrow> tuner \<Rightarrow> tuner" where
  "playFrequency playing_seen f context s =
     (if \<not> playing_seen
      then s\<lparr>playContextRef := Some context,
             tones := tones s @ [\<lparr>tone_context = context, tone_frequency = f, gain = 0.4, sounding = True\<rparr>],
             playing := True,
             timers := timers s @ [Fade (length (tones s))]\<rparr>
      else s)"

text \<open>
  The outer timeout (after 1000 ms) and the inner one (200 ms later). Both read
  \<^verbatim>\<open>playContextRef.current.currentTime\<close>, a \<^verbatim>\<open>TypeError\<close> when the ref is \<^verbatim>\<open>null\<close>. The tone
  at position \<open>k\<close> exists whenever one of them runs: \<^verbatim>\<open>playFrequency\<close> has built it before
  it set the timeout (a list update out of range would change nothing). In the inner one
  the test \<^verbatim>\<open>if (playContextRef.current)\<close> comes after that read, so it holds where it is
  reached.
\<close>

definition fade :: "nat \<Rightarrow> tuner \<Rightarrow> exn option \<times> tuner" where
  "fade k s =
     (case playContextRef s of
        None \<Rightarrow> (Some (Exception ''TypeError''), s)
      | Some context \<Rightarrow>
          (None, s\<lparr>tones := (tones s)[k := (tones s ! k)\<lparr>gain := 0\<rparr>],
                   timers := timers s @ [Finish k]\<rparr>))"

definition finish :: "nat \<Rightarrow> tuner \<Rightarrow> exn option \<times> tuner" where
  "finish k s =
     (case playContextRef s of
        None \<Rightarrow> (Some (Exception ''TypeError''), s)
      | Some context \<Rightarrow>
          (None, s\<lparr>tones := (tones s)[k := (tones s ! k)\<lparr>sounding := False\<rparr>],
                   playing := False,
                   calls := calls s @ [PlayContextClose context],
                   playContextRef := None\<rparr>))"

text \<open>
  What can happen to the tone player: a click on the button, which runs the
  \<^verbatim>\<open>playFrequency\<close> of the latest render (it sees the current \<^verbatim>\<open>playing\<close>), and a pending
  timeout coming due.
\<close>

datatype event = Click real handle | Due timer

definition happen :: "event \<Rightarrow> tuner \<Rightarrow> exn option \<times> tuner" where
  "happen e s =
     (case e of
        Click f context \<Rightarrow> (None, playFrequency (playing s) f context s)
      | Due d \<Rightarrow>
          if d \<in> set (timers s)
          then (case d of
                  Fade k \<Rightarrow> fade k (s\<lparr>timers := remove1 d (timers s)\<rparr>)
                | Finish k \<Rightarrow> finish k (s\<lparr>timers := remove1 d (timers s)\<rparr>))
          else (None, s))"

text \<open>
  A run of events. An exception that leaves a callback is reported by the host and the
  later events still happen: the run returns the exceptions with the last state.
\<close>

fun happen_all :: "event list \<Rightarrow> tuner \<Rightarrow> exn list \<times> tuner" where
  "happen_all [] s = ([], s)"
| "happen_all (e # es) s =
     (case happen e s of
        (None, s') \<Rightarrow> happen_all es s'
      | (Some x, s') \<Rightarrow> (x # fst (happen_all es s'), snd (happen_all es s')))"

text \<open>
  The state of the tone player between events: while \<open>playing\<close> is set, one tone sounds,
  its audio context is held and one of its two timeouts is pending; otherwise no tone
  sounds and no timeout is pending.
\<close>

definition single_flight :: "tuner \<Rightarrow> bool" where
  "single_flight s =
     (if playing s
      then playContextRef s \<noteq> None
         \<and> (\<exists>k<length (tones s).
               sounding (tones s ! k)
             \<and> (\<forall>j<length (tones s). j \<noteq> k \<longrightarrow> \<not> sounding (tones s ! j))
             \<and> (timers s = [Fade k] \<or> timers s = [Finish k]))
      else timers s = [] \<and> (\<forall>j<length (tones s). \<not> sounding (tones s ! j)))"

section \<open>The nearest reference\<close>

lemma closest_scan:
  assumes "names \<noteq> []"
  shows "\<exists>i<length names.
           foldl (compare_note f) (c0, Infinity) names
             = (names ! i, Hertz \<bar>f - TUNING_FREQUENCIES (names ! i)\<bar>)
         \<and> (\<forall>j<length names. \<bar>f - TUNING_FREQUENCIES (names ! i)\<bar> \<le> \<bar>f - TUNING_FREQUENCIES (names ! j)\<bar>)
         \<and> (\<forall>j<i. \<bar>f - TUNING_FREQUENCIES (names ! i)\<bar> < \<bar>f - TUNING_FREQUENCIES (names ! j)\<bar>)"
  using assms
proof (induction names rule: rev_induct)
  case Nil
  then show ?case by simp
next
  case (snoc x xs)
  let ?d = "\<lambda>n. \<bar>f - TUNING_FREQUENCIES n\<bar>"
  show ?case
  proof (cases "xs = []")
    case True
    then show ?thesis by (simp add: compare_note_def)
  next
    case False
    from snoc.IH [OF False] obtain i where i: "i < length xs"
      and run: "foldl (compare_note f) (c0, Infinity) xs = (xs ! i, Hertz (?d (xs ! i)))"
      and least: "\<forall>j<length xs. ?d (xs ! i) \<le> ?d (xs ! j)"
      and first: "\<forall>j<i. ?d (xs ! i) < ?d (xs ! j)"
      by blast
    show ?thesis
    proof (cases "?d x < ?d (xs ! i)")
      case True
      have "foldl (compare_note f) (c0, Infinity) (xs @ [x]) = ((xs @ [x]) ! length xs, Hertz (?d ((xs @ [x]) ! length xs)))"
        using run True by (simp add: compare_note_def)
      moreover have "\<forall>j<length (xs @ [x]). ?d ((xs @ [x]) ! length xs) \<le> ?d ((xs @ [x]) ! j)"
        using least True by (auto simp: nth_append less_Suc_eq)
      moreover have "\<forall>j<length xs. ?d ((xs @ [x]) ! length xs) < ?d ((xs @ [x]) ! j)"
        using least True by (auto simp: nth_append)
      ultimately show ?thesis
        by (intro exI [of _ "length xs"]) simp
    next
      case False
      have "foldl (compare_note f) (c0, Infinity) (xs @ [x]) = ((xs @ [x]) ! i, Hertz (?d ((xs @ [x]) ! i)))"
        using run False i by (simp add: compare_note_def nth_append)
      moreover have "\<forall>j<length (xs @ [x]). ?d ((xs @ [x]) ! i) \<le> ?d ((xs @ [x]) ! j)"
        using least False i by (auto simp: nth_append less_Suc_eq)
      moreover have "\<forall>j<i. ?d ((xs @ [x]) ! i) < ?d ((xs @ [x]) ! j)"
        using first i by (auto simp: nth_append)
      ultimately show ?thesis
        using i by (intro exI [of _ i]) simp
    qed
  qed
qed

text \<open>
  C1. For every frequency \<open>f > 0\<close>, the note that \<open>getNoteAndCents\<close> returns is the key of
  the reference, among the six of \<open>TUNING_FREQUENCIES\<close>, whose distance in hertz to \<open>f\<close> is
  least; of several references at the least distance the first in the order of
  \<open>Object.keys\<close> is returned (every reference before it is strictly farther). No bound on
  \<open>f\<close> is needed, so the same holds far outside the range of a guitar.
\<close>

theorem getNoteAndCents_nearest_first:
  assumes "0 < f"
  shows "\<exists>i<length noteNames.
           note_label (getNoteAndCents f) = key (noteNames ! i)
         \<and> (\<forall>j<length noteNames.
               \<bar>f - TUNING_FREQUENCIES (noteNames ! i)\<bar> \<le> \<bar>f - TUNING_FREQUENCIES (noteNames ! j)\<bar>)
         \<and> (\<forall>j<i. \<bar>f - TUNING_FREQUENCIES (noteNames ! i)\<bar> < \<bar>f - TUNING_FREQUENCIES (noteNames ! j)\<bar>)"
proof -
  have "noteNames \<noteq> []" by (simp add: noteNames_def)
  from closest_scan [OF this, of f "noteNames ! 0"] obtain i where "i < length noteNames"
    and "closest f noteNames = (noteNames ! i, Hertz \<bar>f - TUNING_FREQUENCIES (noteNames ! i)\<bar>)"
    and "\<forall>j<length noteNames. \<bar>f - TUNING_FREQUENCIES (noteNames ! i)\<bar> \<le> \<bar>f - TUNING_FREQUENCIES (noteNames ! j)\<bar>"
    and "\<forall>j<i. \<bar>f - TUNING_FREQUENCIES (noteNames ! i)\<bar> < \<bar>f - TUNING_FREQUENCIES (noteNames ! j)\<bar>"
    unfolding closest_def by blast
  with assms show ?thesis
    by (intro exI [of _ i]) (simp add: getNoteAndCents_def Let_def)
qed

theorem getNoteAndCents_nearest_first_witness:
  "0 < (1000::real)
   \<and> (\<exists>i<length noteNames.
          note_label (getNoteAndCents 1000) = key (noteNames ! i)
        \<and> (\<forall>j<length noteNames.
              \<bar>1000 - TUNING_FREQUENCIES (noteNames ! i)\<bar> \<le> \<bar>1000 - TUNING_FREQUENCIES (noteNames ! j)\<bar>)
        \<and> (\<forall>j<i. \<bar>1000 - TUNING_FREQUENCIES (noteNames ! i)\<bar> < \<bar>1000 - TUNING_FREQUENCIES (noteNames ! j)\<bar>))
   \<and> note_label (getNoteAndCents 1000) = ''E4''
   \<and> \<bar>96.205 - TUNING_FREQUENCIES E2\<bar> = \<bar>96.205 - TUNING_FREQUENCIES A2\<bar>
   \<and> note_label (getNoteAndCents 96.205) = ''E2''"
  using getNoteAndCents_nearest_first [of 1000]
  by (simp add: getNoteAndCents_def closest_def noteNames_def compare_note_def)

section \<open>Cents\<close>

lemma key_inject: "key p = key q \<longleftrightarrow> p = q"
  by (cases p; cases q) simp_all

lemma key_not_placeholder: "key p \<noteq> ''--''"
  by (cases p) simp_all

lemma reference_positive: "0 < TUNING_FREQUENCIES p"
  by (cases p) simp_all

lemma getNoteAndCents_positive:
  "0 < f \<Longrightarrow> getNoteAndCents f =
     \<lparr>note_label = key (fst (closest f noteNames)),
      cents = \<lfloor>1200 * log 2 (f / TUNING_FREQUENCIES (fst (closest f noteNames)))\<rfloor>\<rparr>"
  by (simp add: getNoteAndCents_def Let_def)

lemma closest_110: "fst (closest 110 noteNames) = A2"
  by (simp add: closest_def noteNames_def compare_note_def)

text \<open>
  C2. For every frequency \<open>f \<le> 0\<close>, \<open>getNoteAndCents\<close> returns the placeholder note
  \<^verbatim>\<open>'--'\<close> with 0 cents (a value, the function has no error). For every \<open>f > 0\<close> it returns
  the key of a pitch class \<open>p\<close> together with \<open>\<lfloor>1200 * log 2 (f / reference of p)\<rfloor>\<close>, an
  integer: the cents are taken against the reference of the note that is returned. At the
  reference 110.00 the result is A2 with 0 cents.
\<close>

theorem getNoteAndCents_postcondition:
  "(f \<le> 0 \<longrightarrow> getNoteAndCents f = \<lparr>note_label = ''--'', cents = 0\<rparr>)
   \<and> (0 < f \<longrightarrow> (\<exists>p. getNoteAndCents f =
          \<lparr>note_label = key p, cents = \<lfloor>1200 * log 2 (f / TUNING_FREQUENCIES p)\<rfloor>\<rparr>))
   \<and> getNoteAndCents 110 = \<lparr>note_label = ''A2'', cents = 0\<rparr>"
proof (intro conjI impI)
  assume "f \<le> 0"
  then show "getNoteAndCents f = \<lparr>note_label = ''--'', cents = 0\<rparr>"
    by (simp add: getNoteAndCents_def)
next
  assume "0 < f"
  then show "\<exists>p. getNoteAndCents f =
          \<lparr>note_label = key p, cents = \<lfloor>1200 * log 2 (f / TUNING_FREQUENCIES p)\<rfloor>\<rparr>"
    using getNoteAndCents_positive by blast
next
  show "getNoteAndCents 110 = \<lparr>note_label = ''A2'', cents = 0\<rparr>"
    by (simp add: getNoteAndCents_positive closest_110)
qed

theorem getNoteAndCents_postcondition_witness:
  "getNoteAndCents (- 5) = \<lparr>note_label = ''--'', cents = 0\<rparr>
   \<and> getNoteAndCents 0 = \<lparr>note_label = ''--'', cents = 0\<rparr>
   \<and> (\<exists>p. getNoteAndCents 220 =
          \<lparr>note_label = key p, cents = \<lfloor>1200 * log 2 (220 / TUNING_FREQUENCIES p)\<rfloor>\<rparr>)
   \<and> note_label (getNoteAndCents 220) = ''G3''"
  using getNoteAndCents_postcondition [of "- 5"] getNoteAndCents_postcondition [of 0]
    getNoteAndCents_postcondition [of 220]
  by (simp add: getNoteAndCents_positive closest_def noteNames_def compare_note_def)

section \<open>The band of zero cents\<close>

lemma closest_just_below:
  assumes "9 / 10 * TUNING_FREQUENCIES p < f" "f \<le> TUNING_FREQUENCIES p"
  shows "fst (closest f noteNames) = p"
  using assms
  by (cases p) (simp_all add: closest_def noteNames_def compare_note_def abs_if)

lemma cents_zero_iff:
  assumes "0 < x"
  shows "\<lfloor>1200 * log 2 x\<rfloor> = 0 \<longleftrightarrow> 1 \<le> x \<and> x < 2 powr (1 / 1200)"
proof -
  have "1200 * log 2 x < 1 \<longleftrightarrow> log 2 x < 1 / 1200" by auto
  also have "\<dots> \<longleftrightarrow> x < 2 powr (1 / 1200)"
    using assms by (simp only: log_less_iff one_less_numeral_iff semiring_norm)
  finally have upper: "1200 * log 2 x < 1 \<longleftrightarrow> x < 2 powr (1 / 1200)" .
  have lower: "0 \<le> 1200 * log 2 x \<longleftrightarrow> 1 \<le> x"
    using assms by (simp add: zero_le_mult_iff)
  show ?thesis
    unfolding floor_eq_iff using upper lower by simp
qed

lemma cents_minus_one_iff:
  assumes "0 < x"
  shows "\<lfloor>1200 * log 2 x\<rfloor> = - 1 \<longleftrightarrow> 2 powr (- 1 / 1200) \<le> x \<and> x < 1"
proof -
  have "- 1 \<le> 1200 * log 2 x \<longleftrightarrow> - 1 / 1200 \<le> log 2 x" by auto
  also have "\<dots> \<longleftrightarrow> 2 powr (- 1 / 1200) \<le> x"
    using assms by (simp only: le_log_iff one_less_numeral_iff semiring_norm)
  finally have lower: "- 1 \<le> 1200 * log 2 x \<longleftrightarrow> 2 powr (- 1 / 1200) \<le> x" .
  have upper: "1200 * log 2 x < 0 \<longleftrightarrow> x < 1"
    using assms by (simp add: mult_less_0_iff)
  show ?thesis
    unfolding floor_eq_iff using upper lower by simp
qed

lemma cents_as_power:
  assumes "0 < (r::real)"
  shows "1200 * log 2 r = log 2 (r ^ 1200)"
  using assms by (simp add: log_nat_power)

lemma le_cent_iff:
  assumes "0 < (r::real)"
  shows "r \<le> 2 powr (a / 1200) \<longleftrightarrow> r ^ 1200 \<le> 2 powr a"
proof -
  have pos: "0 < r ^ 1200" using assms by simp
  have "r \<le> 2 powr (a / 1200) \<longleftrightarrow> log 2 r \<le> a / 1200"
    using assms by (simp only: le_powr_iff one_less_numeral_iff semiring_norm)
  also have "\<dots> \<longleftrightarrow> 1200 * log 2 r \<le> a" by auto
  also have "\<dots> \<longleftrightarrow> log 2 (r ^ 1200) \<le> a"
    by (simp only: cents_as_power [OF assms])
  also have "\<dots> \<longleftrightarrow> r ^ 1200 \<le> 2 powr a"
    using pos by (simp only: le_powr_iff one_less_numeral_iff semiring_norm)
  finally show ?thesis .
qed

lemma cent_less_iff:
  assumes "0 < (r::real)"
  shows "2 powr (a / 1200) < r \<longleftrightarrow> 2 powr a < r ^ 1200"
  using le_cent_iff [OF assms, of a] by (simp only: not_le [symmetric])

lemma one_cent_flat_lower: "9 / 10 \<le> (2::real) powr (- 1 / 1200)"
proof -
  have "(9 / 10 :: real) ^ 1200 \<le> (9 / 10) ^ 7"
    by (rule power_decreasing) simp_all
  also have "\<dots> \<le> 1 / 2" by (simp add: power_divide)
  also have "\<dots> = 2 powr (- 1)" by (simp add: powr_minus_divide)
  finally have "(9 / 10 :: real) ^ 1200 \<le> 2 powr (- 1)" .
  moreover have "(0::real) < 9 / 10" by simp
  ultimately show ?thesis
    by (simp only: le_cent_iff)
qed

lemma one_cent_flat_upper: "(2::real) powr (- 1 / 1200) < 9999 / 10000"
proof -
  have "(1 / 2 :: real) < 1 + real 1200 * (- (1 / 10000))" by simp
  also have "\<dots> \<le> (1 + (- (1 / 10000))) ^ 1200"
    by (rule Bernoulli_inequality) simp
  finally have "2 powr (- 1) < (9999 / 10000 :: real) ^ 1200"
    by (simp add: powr_minus_divide)
  moreover have "(0::real) < 9999 / 10000" by simp
  ultimately show ?thesis
    by (simp only: cent_less_iff)
qed

text \<open>
  C10. The cents are a floor, so the band of 0 cents lies on one side of the reference. For
  every pitch class \<open>p\<close> with reference \<open>ref\<close>: a frequency \<open>f\<close> that is classified as
  \<open>p\<close> gets 0 cents exactly when \<open>ref \<le> f < ref * 2 powr (1 / 1200)\<close>; and every \<open>f\<close> with
  \<open>ref * 2 powr (- 1 / 1200) < f < ref\<close> is classified as \<open>p\<close> with -1 cents. A frequency below its
  reference, however close, never shows 0 cents; one up to a cent above it does.
\<close>

theorem zero_cents_band_one_sided:
  "(note_label (getNoteAndCents f) = key p \<longrightarrow>
      (cents (getNoteAndCents f) = 0 \<longleftrightarrow>
         TUNING_FREQUENCIES p \<le> f \<and> f < TUNING_FREQUENCIES p * 2 powr (1 / 1200)))
   \<and> (TUNING_FREQUENCIES p * 2 powr (- 1 / 1200) < f \<and> f < TUNING_FREQUENCIES p \<longrightarrow>
        getNoteAndCents f = \<lparr>note_label = key p, cents = - 1\<rparr>)"
proof (intro conjI impI)
  assume label: "note_label (getNoteAndCents f) = key p"
  have pos: "0 < f"
  proof (rule ccontr)
    assume "\<not> 0 < f"
    then have "note_label (getNoteAndCents f) = ''--''"
      by (simp add: getNoteAndCents_def)
    with label show False by (simp add: key_not_placeholder [symmetric])
  qed
  with label have sel: "fst (closest f noteNames) = p"
    by (simp add: getNoteAndCents_positive key_inject)
  have ref: "0 < TUNING_FREQUENCIES p" by (rule reference_positive)
  have ratio: "0 < f / TUNING_FREQUENCIES p" using pos ref by simp
  have "cents (getNoteAndCents f) = \<lfloor>1200 * log 2 (f / TUNING_FREQUENCIES p)\<rfloor>"
    using pos sel by (simp add: getNoteAndCents_positive)
  moreover have "\<lfloor>1200 * log 2 (f / TUNING_FREQUENCIES p)\<rfloor> = 0 \<longleftrightarrow>
      1 \<le> f / TUNING_FREQUENCIES p \<and> f / TUNING_FREQUENCIES p < 2 powr (1 / 1200)"
    by (rule cents_zero_iff [OF ratio])
  moreover have "1 \<le> f / TUNING_FREQUENCIES p \<longleftrightarrow> TUNING_FREQUENCIES p \<le> f"
    using ref by (simp add: le_divide_eq)
  moreover have "f / TUNING_FREQUENCIES p < 2 powr (1 / 1200) \<longleftrightarrow> f < TUNING_FREQUENCIES p * 2 powr (1 / 1200)"
    using ref by (simp add: divide_less_eq mult.commute)
  ultimately show "cents (getNoteAndCents f) = 0 \<longleftrightarrow>
         TUNING_FREQUENCIES p \<le> f \<and> f < TUNING_FREQUENCIES p * 2 powr (1 / 1200)"
    by (simp only:)
next
  assume band: "TUNING_FREQUENCIES p * 2 powr (- 1 / 1200) < f \<and> f < TUNING_FREQUENCIES p"
  have ref: "0 < TUNING_FREQUENCIES p" by (rule reference_positive)
  have "TUNING_FREQUENCIES p * (9 / 10) \<le> TUNING_FREQUENCIES p * 2 powr (- 1 / 1200)"
    using one_cent_flat_lower ref by (intro mult_left_mono) simp_all
  with band have near: "9 / 10 * TUNING_FREQUENCIES p < f" by simp
  have "0 < 9 / 10 * TUNING_FREQUENCIES p" using ref by simp
  with near have pos: "0 < f" by linarith
  have ratio: "0 < f / TUNING_FREQUENCIES p" using pos ref by simp
  have sel: "fst (closest f noteNames) = p"
    using near band by (intro closest_just_below) simp_all
  have "2 powr (- 1 / 1200) \<le> f / TUNING_FREQUENCIES p"
    using band ref by (simp add: le_divide_eq mult.commute)
  moreover have "f / TUNING_FREQUENCIES p < 1"
    using band ref by simp
  ultimately have "\<lfloor>1200 * log 2 (f / TUNING_FREQUENCIES p)\<rfloor> = - 1"
    by (simp only: cents_minus_one_iff [OF ratio])
  then show "getNoteAndCents f = \<lparr>note_label = key p, cents = - 1\<rparr>"
    using pos sel by (simp add: getNoteAndCents_positive)
qed

theorem zero_cents_band_one_sided_witness:
  "cents (getNoteAndCents 110) = 0 \<and> getNoteAndCents (10999 / 100) = \<lparr>note_label = ''A2'', cents = - 1\<rparr>"
proof -
  have a: "note_label (getNoteAndCents 110) = key A2"
    by (simp add: getNoteAndCents_positive closest_110)
  have "(1::real) < 2 powr (1 / 1200)" by simp
  then have b: "TUNING_FREQUENCIES A2 \<le> 110 \<and> 110 < TUNING_FREQUENCIES A2 * 2 powr (1 / 1200)"
    by simp
  have "110 * (2::real) powr (- 1 / 1200) < 110 * (9999 / 10000)"
    using one_cent_flat_upper by (intro mult_strict_left_mono) simp_all
  then have c: "TUNING_FREQUENCIES A2 * 2 powr (- 1 / 1200) < 10999 / 100 \<and> 10999 / 100 < TUNING_FREQUENCIES A2"
    by simp
  show ?thesis
    using zero_cents_band_one_sided [of 110 A2] zero_cents_band_one_sided [of "10999 / 100" A2] a b c by simp
qed

section \<open>Ticks of the acquisition loop\<close>

text \<open>
  The three ways a tick can go once the analyser and the pitch finder are set: the pitch
  finder returns \<^verbatim>\<open>null\<close>, it returns a number, it throws.
\<close>

lemma updatePitch_null:
  assumes "analyserRef s \<noteq> None" and "pitchFinderRef s" and "detected t = NoPitch"
  shows "updatePitch t s =
    (None, s\<lparr>note_state := ''--'', cents_state := 0, previousPitch := 0,
              chartDataRef := chartDataRef s @ [\<lparr>time = now t, frequency = 0, point_note = ''--''\<rparr>],
              frequencyData := chartDataRef s @ [\<lparr>time = now t, frequency = 0, point_note = ''--''\<rparr>],
              animationFrameRef := Some (frame t), pendingFrame := Some (frame t)\<rparr>)"
  using assms by (auto simp: updatePitch_def Let_def)

lemma updatePitch_number:
  assumes "analyserRef s \<noteq> None" and "pitchFinderRef s" and "detected t = Pitch f"
  shows "updatePitch t s =
    (None, s\<lparr>note_state := note_label (getNoteAndCents (smoothedPitch s f)),
              cents_state := cents (getNoteAndCents (smoothedPitch s f)),
              chartDataRef := chartDataRef s @
                [\<lparr>time = now t, frequency = smoothedPitch s f,
                  point_note = note_label (getNoteAndCents (smoothedPitch s f))\<rparr>],
              frequencyData := chartDataRef s @
                [\<lparr>time = now t, frequency = smoothedPitch s f,
                  point_note = note_label (getNoteAndCents (smoothedPitch s f))\<rparr>],
              previousPitch := smoothedPitch s f,
              animationFrameRef := Some (frame t), pendingFrame := Some (frame t)\<rparr>)"
  using assms by (auto simp: updatePitch_def Let_def smoothedPitch_def)

lemma updatePitch_throws:
  assumes "analyserRef s \<noteq> None" and "pitchFinderRef s" and "detected t = Throws m"
  shows "updatePitch t s = (Some (Exception m), s)"
  using assms by (auto simp: updatePitch_def)

text \<open>
  C3. In a tick in which the pitch finder returns a number \<open>f\<close>, with the coefficient
  \<^verbatim>\<open>smoothingRef.current\<close> at its value 0.7: the smoothed pitch, which the tick stores in
  \<^verbatim>\<open>previousPitch\<close> and records in the history, is \<open>f\<close> when the stored previous value is 0
  and \<open>0.7 * previous + (1 - 0.7) * f\<close> otherwise; the coefficient stays 0.7. With the previous
  value 100 and \<open>f = 200\<close> the result is 130.
\<close>

theorem smoothing_filter:
  assumes "analyserRef s \<noteq> None" and "pitchFinderRef s"
    and "smoothingRef s = 0.7" and "detected t = Pitch f"
  shows "previousPitch (snd (updatePitch t s))
           = (if previousPitch s = 0 then f else 0.7 * previousPitch s + (1 - 0.7) * f)
       \<and> frequency (last (chartDataRef (snd (updatePitch t s)))) = previousPitch (snd (updatePitch t s))
       \<and> smoothingRef (snd (updatePitch t s)) = 0.7
       \<and> (previousPitch s = 100 \<and> f = 200 \<longrightarrow> previousPitch (snd (updatePitch t s)) = 130)"
proof -
  have tick: "snd (updatePitch t s) =
      s\<lparr>note_state := note_label (getNoteAndCents (smoothedPitch s f)),
        cents_state := cents (getNoteAndCents (smoothedPitch s f)),
        chartDataRef := chartDataRef s @
          [\<lparr>time = now t, frequency = smoothedPitch s f,
            point_note = note_label (getNoteAndCents (smoothedPitch s f))\<rparr>],
        frequencyData := chartDataRef s @
          [\<lparr>time = now t, frequency = smoothedPitch s f,
            point_note = note_label (getNoteAndCents (smoothedPitch s f))\<rparr>],
        previousPitch := smoothedPitch s f,
        animationFrameRef := Some (frame t), pendingFrame := Some (frame t)\<rparr>"
    using assms by (simp add: updatePitch_number)
  have filter: "smoothedPitch s f = (if previousPitch s = 0 then f else 0.7 * previousPitch s + (1 - 0.7) * f)"
    by (simp only: smoothedPitch_def assms(3))
  have "previousPitch s = 100 \<and> f = 200 \<longrightarrow> smoothedPitch s f = 130"
    unfolding filter by simp
  then show ?thesis
    using filter assms(3) by (simp add: tick)
qed

text \<open>
  At the state a session reaches by a first tick with 100 Hz, a tick with 200 Hz gives 130.
\<close>

theorem smoothing_filter_witness:
  "previousPitch (initializePitchDetection (Granted 1 2 3) \<lparr>detected = Pitch 100, now = 0, frame = 1\<rparr> mounted) = 100
   \<and> previousPitch (snd (updatePitch \<lparr>detected = Pitch 200, now = 16, frame = 2\<rparr>
        (initializePitchDetection (Granted 1 2 3) \<lparr>detected = Pitch 100, now = 0, frame = 1\<rparr> mounted))) = 130"
  using smoothing_filter [of "initializePitchDetection (Granted 1 2 3) \<lparr>detected = Pitch 100, now = 0, frame = 1\<rparr> mounted"
      "\<lparr>detected = Pitch 200, now = 16, frame = 2\<rparr>" 200]
  by (simp add: initializePitchDetection_def updatePitch_def smoothedPitch_def mounted_def Let_def)

text \<open>
  C4, as the code has it. A tick in which the pitch finder returns \<^verbatim>\<open>null\<close> resets
  \<^verbatim>\<open>previousPitch\<close> to 0. A tick in which it returns a number \<open>f\<close>, of whatever sign, stores
  the smoothed value: \<open>f\<close> when the previous value is 0, the weighted sum otherwise. The
  test of the tick is \<^verbatim>\<open>frequency !== null\<close>, so a number \<open>\<le> 0\<close> is smoothed and stored like
  any other and resets nothing.
\<close>

theorem smoothing_state_after_tick:
  assumes "analyserRef s \<noteq> None" and "pitchFinderRef s"
  shows "(detected t = NoPitch \<longrightarrow> previousPitch (snd (updatePitch t s)) = 0)
       \<and> (detected t = Pitch f \<longrightarrow>
            previousPitch (snd (updatePitch t s))
              = (if previousPitch s = 0 then f
                 else smoothingRef s * previousPitch s + (1 - smoothingRef s) * f))"
  using assms by (simp add: updatePitch_null updatePitch_number smoothedPitch_def)

theorem smoothing_state_after_tick_witness:
  "previousPitch (snd (updatePitch \<lparr>detected = NoPitch, now = 16, frame = 2\<rparr>
      (initializePitchDetection (Granted 1 2 3) \<lparr>detected = Pitch 100, now = 0, frame = 1\<rparr> mounted))) = 0
   \<and> previousPitch (snd (updatePitch \<lparr>detected = Pitch (- 5), now = 16, frame = 2\<rparr>
      (initializePitchDetection (Granted 1 2 3) \<lparr>detected = NoPitch, now = 0, frame = 1\<rparr> mounted))) = - 5"
  using smoothing_state_after_tick [of "initializePitchDetection (Granted 1 2 3) \<lparr>detected = Pitch 100, now = 0, frame = 1\<rparr> mounted"
      "\<lparr>detected = NoPitch, now = 16, frame = 2\<rparr>" 0]
    smoothing_state_after_tick [of "initializePitchDetection (Granted 1 2 3) \<lparr>detected = NoPitch, now = 0, frame = 1\<rparr> mounted"
      "\<lparr>detected = Pitch (- 5), now = 16, frame = 2\<rparr>" "- 5"]
  by (simp add: initializePitchDetection_def updatePitch_def smoothedPitch_def mounted_def Let_def)

text \<open>
  C4 as stated fails: after a tick with 100 Hz, a tick in which the pitch finder returns 0
  leaves \<open>previousPitch = 70\<close>, not 0; and a first tick with -5 Hz leaves -5.
\<close>

theorem smoothing_state_not_reset_at_zero:
  "previousPitch (snd (session (Granted 1 2 3) \<lparr>detected = Pitch 100, now = 0, frame = 1\<rparr>
      [\<lparr>detected = Pitch 0, now = 16, frame = 2\<rparr>])) = 70
   \<and> previousPitch (snd (session (Granted 1 2 3) \<lparr>detected = Pitch 100, now = 0, frame = 1\<rparr>
      [\<lparr>detected = Pitch 0, now = 16, frame = 2\<rparr>])) \<noteq> 0
   \<and> previousPitch (snd (session (Granted 1 2 3) \<lparr>detected = Pitch (- 5), now = 0, frame = 1\<rparr> [])) \<noteq> 0"
  by (simp add: session_def animation_frame_def initializePitchDetection_def updatePitch_def
      smoothedPitch_def mounted_def Let_def)

text \<open>
  C5, as the code has it. \<^verbatim>\<open>updatePitch\<close> has no \<^verbatim>\<open>try\<close>. On a frame in which the pitch finder
  throws, the exception leaves the callback before any state is written and before
  \<^verbatim>\<open>requestAnimationFrame\<close> is reached: nothing is recorded, no request is pending, and every
  later frame finds nothing to run. A frame in which the pitch finder returns \<^verbatim>\<open>null\<close> gives
  the outcome "no pitch detected" (note \<^verbatim>\<open>'--'\<close>, 0 cents, \<open>previousPitch = 0\<close>, an entry with
  frequency 0), and every frame in which the pitch finder returns reschedules the loop.
\<close>

theorem throwing_tick_ends_loop:
  assumes "analyserRef s \<noteq> None" and "pitchFinderRef s" and "pendingFrame s = Some r"
  shows "(detected t = Throws m \<longrightarrow>
            animation_frame t s = (Some (Exception m), s\<lparr>pendingFrame := None\<rparr>)
          \<and> frames (t # ts) s = (Some (Exception m), s\<lparr>pendingFrame := None\<rparr>)
          \<and> frames ts (s\<lparr>pendingFrame := None\<rparr>) = (None, s\<lparr>pendingFrame := None\<rparr>))
       \<and> (detected t = NoPitch \<longrightarrow>
            fst (animation_frame t s) = None
          \<and> note_state (snd (animation_frame t s)) = ''--''
          \<and> cents_state (snd (animation_frame t s)) = 0
          \<and> previousPitch (snd (animation_frame t s)) = 0
          \<and> chartDataRef (snd (animation_frame t s))
               = chartDataRef s @ [\<lparr>time = now t, frequency = 0, point_note = ''--''\<rparr>])
       \<and> ((\<forall>msg. detected t \<noteq> Throws msg) \<longrightarrow>
            fst (animation_frame t s) = None
          \<and> pendingFrame (snd (animation_frame t s)) = Some (frame t))"
proof (intro conjI impI)
  have idle: "frames ts (s\<lparr>pendingFrame := None\<rparr>) = (None, s\<lparr>pendingFrame := None\<rparr>)" for ts
    by (induction ts) (simp_all add: animation_frame_def)
  assume thrown: "detected t = Throws m"
  then show a: "animation_frame t s = (Some (Exception m), s\<lparr>pendingFrame := None\<rparr>)"
    using assms by (simp add: animation_frame_def updatePitch_throws)
  then show "frames (t # ts) s = (Some (Exception m), s\<lparr>pendingFrame := None\<rparr>)"
    by simp
  show "frames ts (s\<lparr>pendingFrame := None\<rparr>) = (None, s\<lparr>pendingFrame := None\<rparr>)"
    by (rule idle)
next
  assume null: "detected t = NoPitch"
  then have "animation_frame t s = updatePitch t (s\<lparr>pendingFrame := None\<rparr>)"
    using assms by (simp add: animation_frame_def)
  with null assms show "fst (animation_frame t s) = None"
    and "note_state (snd (animation_frame t s)) = ''--''"
    and "cents_state (snd (animation_frame t s)) = 0"
    and "previousPitch (snd (animation_frame t s)) = 0"
    and "chartDataRef (snd (animation_frame t s))
               = chartDataRef s @ [\<lparr>time = now t, frequency = 0, point_note = ''--''\<rparr>]"
    by (simp_all add: updatePitch_null)
next
  assume returns: "\<forall>msg. detected t \<noteq> Throws msg"
  have run: "animation_frame t s = updatePitch t (s\<lparr>pendingFrame := None\<rparr>)"
    using assms by (simp add: animation_frame_def)
  from returns assms show "fst (animation_frame t s) = None"
    unfolding run by (cases "detected t") (simp_all add: updatePitch_null updatePitch_number)
  from returns assms show "pendingFrame (snd (animation_frame t s)) = Some (frame t)"
    unfolding run by (cases "detected t") (simp_all add: updatePitch_null updatePitch_number)
qed

theorem throwing_tick_ends_loop_witness:
  "animation_frame \<lparr>detected = Throws ''estimator failed'', now = 16, frame = 2\<rparr>
      (initializePitchDetection (Granted 1 2 3) \<lparr>detected = NoPitch, now = 0, frame = 1\<rparr> mounted)
     = (Some (Exception ''estimator failed''),
        (initializePitchDetection (Granted 1 2 3) \<lparr>detected = NoPitch, now = 0, frame = 1\<rparr> mounted)
          \<lparr>pendingFrame := None\<rparr>)
   \<and> pendingFrame (snd (animation_frame \<lparr>detected = NoPitch, now = 16, frame = 2\<rparr>
      (initializePitchDetection (Granted 1 2 3) \<lparr>detected = NoPitch, now = 0, frame = 1\<rparr> mounted)))
     = Some 2"
  using throwing_tick_ends_loop [of "initializePitchDetection (Granted 1 2 3) \<lparr>detected = NoPitch, now = 0, frame = 1\<rparr> mounted"
      1 "\<lparr>detected = Throws ''estimator failed'', now = 16, frame = 2\<rparr>" "''estimator failed''" "[]"]
    throwing_tick_ends_loop [of "initializePitchDetection (Granted 1 2 3) \<lparr>detected = NoPitch, now = 0, frame = 1\<rparr> mounted"
      1 "\<lparr>detected = NoPitch, now = 16, frame = 2\<rparr>" "''''" "[]"]
  by (simp add: initializePitchDetection_def updatePitch_def smoothedPitch_def mounted_def Let_def)

text \<open>
  C5 as stated fails: a frame in which the pitch finder throws ends with the exception and
  with no request pending, and the session records nothing more, also not for the frame
  after it.
\<close>

theorem throwing_tick_is_not_no_pitch:
  "fst (animation_frame \<lparr>detected = Throws ''estimator failed'', now = 16, frame = 2\<rparr>
         (initializePitchDetection (Granted 1 2 3) \<lparr>detected = Pitch 100, now = 0, frame = 1\<rparr> mounted))
     = Some (Exception ''estimator failed'')
   \<and> pendingFrame (snd (animation_frame \<lparr>detected = Throws ''estimator failed'', now = 16, frame = 2\<rparr>
         (initializePitchDetection (Granted 1 2 3) \<lparr>detected = Pitch 100, now = 0, frame = 1\<rparr> mounted)))
     = None
   \<and> length (chartDataRef (snd (session (Granted 1 2 3) \<lparr>detected = Pitch 100, now = 0, frame = 1\<rparr>
         [\<lparr>detected = Throws ''estimator failed'', now = 16, frame = 2\<rparr>,
          \<lparr>detected = Pitch 100, now = 32, frame = 3\<rparr>]))) = 1"
  by (simp add: session_def animation_frame_def initializePitchDetection_def updatePitch_def
      smoothedPitch_def mounted_def Let_def)

section \<open>The history\<close>

lemma tick_records:
  assumes "analyserRef s \<noteq> None" and "pitchFinderRef s" and "\<forall>m. detected t \<noteq> Throws m"
  shows "\<exists>e. fst (updatePitch t s) = None
           \<and> chartDataRef (snd (updatePitch t s)) = chartDataRef s @ [e]
           \<and> time e = now t
           \<and> (detected t = NoPitch \<longrightarrow> e = \<lparr>time = now t, frequency = 0, point_note = ''--''\<rparr>)
           \<and> analyserRef (snd (updatePitch t s)) = analyserRef s
           \<and> pitchFinderRef (snd (updatePitch t s))
           \<and> pendingFrame (snd (updatePitch t s)) = Some (frame t)"
  using assms by (cases "detected t") (simp_all add: updatePitch_null updatePitch_number)

lemma frames_record:
  assumes "analyserRef s \<noteq> None" and "pitchFinderRef s" and "pendingFrame s \<noteq> None"
    and "\<forall>t\<in>set ts. \<forall>m. detected t \<noteq> Throws m"
  shows "\<exists>entries. fst (frames ts s) = None
           \<and> chartDataRef (snd (frames ts s)) = chartDataRef s @ entries
           \<and> map time entries = map now ts
           \<and> (\<forall>i<length ts. detected (ts ! i) = NoPitch \<longrightarrow>
                 entries ! i = \<lparr>time = now (ts ! i), frequency = 0, point_note = ''--''\<rparr>)
           \<and> analyserRef (snd (frames ts s)) \<noteq> None
           \<and> pitchFinderRef (snd (frames ts s))
           \<and> pendingFrame (snd (frames ts s)) \<noteq> None"
  using assms
proof (induction ts arbitrary: s)
  case Nil
  then show ?case by simp
next
  case (Cons t ts)
  let ?s0 = "s\<lparr>pendingFrame := None\<rparr>"
  let ?s1 = "snd (updatePitch t ?s0)"
  have frame: "animation_frame t s = updatePitch t ?s0"
    using Cons.prems(3) by (auto simp: animation_frame_def)
  have "analyserRef ?s0 \<noteq> None" and "pitchFinderRef ?s0" and "\<forall>m. detected t \<noteq> Throws m"
    using Cons.prems by simp_all
  from tick_records [OF this] obtain e where ok: "fst (updatePitch t ?s0) = None"
    and chart: "chartDataRef ?s1 = chartDataRef s @ [e]"
    and stamp: "time e = now t"
    and null: "detected t = NoPitch \<longrightarrow> e = \<lparr>time = now t, frequency = 0, point_note = ''--''\<rparr>"
    and active: "analyserRef ?s1 = analyserRef s" "pitchFinderRef ?s1" "pendingFrame ?s1 = Some (frame t)"
    by auto
  have next_run: "frames (t # ts) s = frames ts ?s1"
    using ok by (cases "updatePitch t ?s0") (auto simp: frame)
  have "analyserRef ?s1 \<noteq> None" and "pitchFinderRef ?s1" and "pendingFrame ?s1 \<noteq> None"
    and "\<forall>t\<in>set ts. \<forall>m. detected t \<noteq> Throws m"
    using active Cons.prems by simp_all
  from Cons.IH [OF this] obtain entries where rest: "fst (frames ts ?s1) = None"
    and chart': "chartDataRef (snd (frames ts ?s1)) = chartDataRef ?s1 @ entries"
    and stamps: "map time entries = map now ts"
    and nulls: "\<forall>i<length ts. detected (ts ! i) = NoPitch \<longrightarrow>
                 entries ! i = \<lparr>time = now (ts ! i), frequency = 0, point_note = ''--''\<rparr>"
    and still: "analyserRef (snd (frames ts ?s1)) \<noteq> None" "pitchFinderRef (snd (frames ts ?s1))"
      "pendingFrame (snd (frames ts ?s1)) \<noteq> None"
    by blast
  have "\<forall>i<length (t # ts). detected ((t # ts) ! i) = NoPitch \<longrightarrow>
          (e # entries) ! i = \<lparr>time = now ((t # ts) ! i), frequency = 0, point_note = ''--''\<rparr>"
    using null nulls by (auto simp: nth_Cons split: nat.splits)
  then show ?case
    using rest chart' chart stamp stamps still unfolding next_run
    by (intro exI [of _ "e # entries"]) simp
qed

lemma frames_append:
  assumes "fst (frames xs s) = None"
  shows "frames (xs @ ys) s = frames ys (snd (frames xs s))"
  using assms
  by (induction xs arbitrary: s) (auto split: prod.splits option.splits)

lemma granted_first_tick:
  assumes "\<forall>m. detected t \<noteq> Throws m"
  shows "\<exists>e. chartDataRef (initializePitchDetection (Granted c a n) t mounted) = [e]
           \<and> time e = now t
           \<and> (detected t = NoPitch \<longrightarrow> e = \<lparr>time = now t, frequency = 0, point_note = ''--''\<rparr>)
           \<and> analyserRef (initializePitchDetection (Granted c a n) t mounted) \<noteq> None
           \<and> pitchFinderRef (initializePitchDetection (Granted c a n) t mounted)
           \<and> pendingFrame (initializePitchDetection (Granted c a n) t mounted) \<noteq> None"
  using assms
  by (cases "detected t")
    (simp_all add: initializePitchDetection_def updatePitch_def mounted_def Let_def)

lemma session_history:
  assumes "\<forall>t\<in>set (t0 # ts). \<forall>m. detected t \<noteq> Throws m"
  shows "\<exists>entries. fst (session (Granted c a n) t0 ts) = None
           \<and> chartDataRef (snd (session (Granted c a n) t0 ts)) = entries
           \<and> map time entries = map now (t0 # ts)
           \<and> (\<forall>i<length (t0 # ts). detected ((t0 # ts) ! i) = NoPitch \<longrightarrow>
                 entries ! i = \<lparr>time = now ((t0 # ts) ! i), frequency = 0, point_note = ''--''\<rparr>)"
proof -
  let ?s0 = "initializePitchDetection (Granted c a n) t0 mounted"
  from assms have "\<forall>m. detected t0 \<noteq> Throws m" by simp
  from granted_first_tick [OF this, of c a n] obtain e where first: "chartDataRef ?s0 = [e]"
    and stamp: "time e = now t0"
    and null: "detected t0 = NoPitch \<longrightarrow> e = \<lparr>time = now t0, frequency = 0, point_note = ''--''\<rparr>"
    and active: "analyserRef ?s0 \<noteq> None" "pitchFinderRef ?s0" "pendingFrame ?s0 \<noteq> None"
    by blast
  from assms have "\<forall>t\<in>set ts. \<forall>m. detected t \<noteq> Throws m" by simp
  from frames_record [OF active this] obtain entries where rest: "fst (frames ts ?s0) = None"
    and chart: "chartDataRef (snd (frames ts ?s0)) = chartDataRef ?s0 @ entries"
    and stamps: "map time entries = map now ts"
    and nulls: "\<forall>i<length ts. detected (ts ! i) = NoPitch \<longrightarrow>
                 entries ! i = \<lparr>time = now (ts ! i), frequency = 0, point_note = ''--''\<rparr>"
    by blast
  have "\<forall>i<length (t0 # ts). detected ((t0 # ts) ! i) = NoPitch \<longrightarrow>
          (e # entries) ! i = \<lparr>time = now ((t0 # ts) ! i), frequency = 0, point_note = ''--''\<rparr>"
    using null nulls by (auto simp: nth_Cons split: nat.splits)
  then show ?thesis
    using rest chart first stamp stamps
    by (intro exI [of _ "e # entries"]) (simp add: session_def)
qed

text \<open>
  C7, as the code has it. A session whose microphone was granted and in which the pitch
  finder returns in every tick (a tick in which it throws appends nothing and ends the
  loop, see above): after the first tick and the frames \<open>ts\<close> the history
  \<^verbatim>\<open>chartDataRef.current\<close> has one entry for each tick, in the order of the ticks, each stamped
  with the \<^verbatim>\<open>Date.now()\<close> of its tick; the history after the first \<open>k\<close> frames is an initial
  segment of the final one (an entry, once appended, is never changed); a tick with no
  detection appends the entry with frequency 0 and the note \<^verbatim>\<open>'--'\<close>. The code never compares
  or reorders timestamps: the history is in non-decreasing order of its timestamps exactly
  when the readings of the clock are.
\<close>

theorem history_append_only:
  assumes "\<forall>t\<in>set (t0 # ts). \<forall>m. detected t \<noteq> Throws m" and "k \<le> length ts"
  shows "fst (session (Granted c a n) t0 ts) = None
       \<and> length (chartDataRef (snd (session (Granted c a n) t0 ts))) = length (t0 # ts)
       \<and> map time (chartDataRef (snd (session (Granted c a n) t0 ts))) = map now (t0 # ts)
       \<and> chartDataRef (snd (session (Granted c a n) t0 (take k ts)))
           = take (Suc k) (chartDataRef (snd (session (Granted c a n) t0 ts)))
       \<and> (\<forall>i<length (t0 # ts). detected ((t0 # ts) ! i) = NoPitch \<longrightarrow>
             chartDataRef (snd (session (Granted c a n) t0 ts)) ! i
               = \<lparr>time = now ((t0 # ts) ! i), frequency = 0, point_note = ''--''\<rparr>)
       \<and> (sorted (map time (chartDataRef (snd (session (Granted c a n) t0 ts))))
            \<longleftrightarrow> sorted (map now (t0 # ts)))"
proof -
  let ?h = "chartDataRef (snd (session (Granted c a n) t0 ts))"
  from session_history [OF assms(1), of c a n]
  have ok: "fst (session (Granted c a n) t0 ts) = None"
    and stamps: "map time ?h = map now (t0 # ts)"
    and nulls: "\<forall>i<length (t0 # ts). detected ((t0 # ts) ! i) = NoPitch \<longrightarrow>
             ?h ! i = \<lparr>time = now ((t0 # ts) ! i), frequency = 0, point_note = ''--''\<rparr>"
    by auto
  from stamps have len: "length ?h = length (t0 # ts)"
    by (metis length_map)
  let ?s0 = "initializePitchDetection (Granted c a n) t0 mounted"
  let ?early = "chartDataRef (snd (session (Granted c a n) t0 (take k ts)))"
  have "\<forall>t\<in>set (t0 # take k ts). \<forall>m. detected t \<noteq> Throws m"
    using assms(1) by (auto dest: in_set_takeD)
  from session_history [OF this, of c a n]
  have early_ok: "fst (frames (take k ts) ?s0) = None"
    and early_stamps: "map time ?early = map now (t0 # take k ts)"
    by (auto simp: session_def)
  from early_stamps have early_len: "length ?early = Suc k"
    using assms(2) by (metis length_map length_Cons length_take min.absorb2)
  from assms(1) have first: "\<forall>m. detected t0 \<noteq> Throws m" by simp
  from granted_first_tick [OF this, of c a n]
  have active: "analyserRef ?s0 \<noteq> None" "pitchFinderRef ?s0" "pendingFrame ?s0 \<noteq> None"
    by auto
  have "\<forall>t\<in>set (take k ts). \<forall>m. detected t \<noteq> Throws m"
    using assms(1) by (auto dest: in_set_takeD)
  from frames_record [OF active this]
  have still: "analyserRef (snd (frames (take k ts) ?s0)) \<noteq> None"
    "pitchFinderRef (snd (frames (take k ts) ?s0))"
    "pendingFrame (snd (frames (take k ts) ?s0)) \<noteq> None"
    by auto
  have "\<forall>t\<in>set (drop k ts). \<forall>m. detected t \<noteq> Throws m"
    using assms(1) by (auto dest: in_set_dropD)
  from frames_record [OF still this]
  have "\<exists>entries. chartDataRef (snd (frames (drop k ts) (snd (frames (take k ts) ?s0))))
          = chartDataRef (snd (frames (take k ts) ?s0)) @ entries"
    by blast
  moreover have "frames ts ?s0 = frames (drop k ts) (snd (frames (take k ts) ?s0))"
    using frames_append [OF early_ok, of "drop k ts"] by simp
  ultimately obtain entries where "?h = ?early @ entries"
    by (auto simp: session_def)
  with early_len have prefix: "?early = take (Suc k) ?h" by simp
  show ?thesis
    using ok len stamps prefix nulls by simp
qed

theorem history_append_only_witness:
  "map time (chartDataRef (snd (session (Granted 1 2 3) \<lparr>detected = NoPitch, now = 0, frame = 1\<rparr>
      [\<lparr>detected = Pitch 110, now = 16, frame = 2\<rparr>, \<lparr>detected = NoPitch, now = 33, frame = 3\<rparr>])))
     = [0, 16, 33]
   \<and> length (chartDataRef (snd (session (Granted 1 2 3) \<lparr>detected = NoPitch, now = 0, frame = 1\<rparr>
      [\<lparr>detected = Pitch 110, now = 16, frame = 2\<rparr>, \<lparr>detected = NoPitch, now = 33, frame = 3\<rparr>]))) = 3
   \<and> chartDataRef (snd (session (Granted 1 2 3) \<lparr>detected = NoPitch, now = 0, frame = 1\<rparr>
      [\<lparr>detected = Pitch 110, now = 16, frame = 2\<rparr>, \<lparr>detected = NoPitch, now = 33, frame = 3\<rparr>])) ! 2
     = \<lparr>time = 33, frequency = 0, point_note = ''--''\<rparr>
   \<and> sorted (map time (chartDataRef (snd (session (Granted 1 2 3) \<lparr>detected = NoPitch, now = 0, frame = 1\<rparr>
      [\<lparr>detected = Pitch 110, now = 16, frame = 2\<rparr>, \<lparr>detected = NoPitch, now = 33, frame = 3\<rparr>]))))"
  using history_append_only [of "\<lparr>detected = NoPitch, now = 0, frame = 1\<rparr>"
      "[\<lparr>detected = Pitch 110, now = 16, frame = 2\<rparr>, \<lparr>detected = NoPitch, now = 33, frame = 3\<rparr>]" 1 1 2 3]
  by (simp add: nth_Cons split: nat.splits)

text \<open>
  C7 as stated fails: with the clock readings 50, 20, 30 (the wall clock set back between
  two ticks) the history carries the timestamps 50, 20, 30 in the order of insertion, which
  is not non-decreasing; and a session of two ticks whose second one throws has one entry.
\<close>

theorem history_order_follows_clock:
  "map time (chartDataRef (snd (session (Granted 1 2 3) \<lparr>detected = NoPitch, now = 50, frame = 1\<rparr>
      [\<lparr>detected = Pitch 110, now = 20, frame = 2\<rparr>, \<lparr>detected = NoPitch, now = 30, frame = 3\<rparr>])))
     = [50, 20, 30]
   \<and> \<not> sorted (map time (chartDataRef (snd (session (Granted 1 2 3)
      \<lparr>detected = NoPitch, now = 50, frame = 1\<rparr>
      [\<lparr>detected = Pitch 110, now = 20, frame = 2\<rparr>, \<lparr>detected = NoPitch, now = 30, frame = 3\<rparr>]))))
   \<and> length (chartDataRef (snd (session (Granted 1 2 3) \<lparr>detected = NoPitch, now = 0, frame = 1\<rparr>
      [\<lparr>detected = Throws ''estimator failed'', now = 16, frame = 2\<rparr>]))) = 1"
  by (simp add: session_def animation_frame_def initializePitchDetection_def updatePitch_def
      smoothedPitch_def mounted_def Let_def)

section \<open>The scenario of four ticks\<close>

text \<open>
  Bounds on \<open>\<lfloor>1200 * log 2 x\<rfloor>\<close> for \<open>x\<close> close to 1, by repeated squaring.
\<close>

lemma cents_floor_iff:
  assumes "0 < r"
  shows "\<lfloor>1200 * log 2 r\<rfloor> = k \<longleftrightarrow> 2 powr (of_int k) \<le> r ^ 1200 \<and> r ^ 1200 < 2 powr (of_int k + 1)"
proof -
  have pos: "0 < r ^ 1200" using assms by simp
  have "1200 * log 2 r = log 2 (r ^ 1200)"
    using assms by (simp add: log_nat_power)
  then show ?thesis
    unfolding floor_eq_iff using pos by (simp only: le_log_iff log_less_iff one_less_numeral_iff Num.num.simps(4) semiring_norm)
qed

lemma square_lower:
  fixes x :: real
  assumes "a \<le> x ^ n" and "0 \<le> a" and "b \<le> a * a"
  shows "b \<le> x ^ (2 * n)"
proof -
  have "a * a \<le> x ^ n * x ^ n"
    using assms by (intro mult_mono) simp_all
  also have "\<dots> = x ^ (2 * n)"
    by (simp add: mult_2 power_add)
  finally show ?thesis using assms by simp
qed

lemma product_lower:
  fixes x :: real
  assumes "a \<le> x ^ m" and "b \<le> x ^ n" and "0 \<le> a" and "0 \<le> b" and "c \<le> a * b"
  shows "c \<le> x ^ (m + n)"
proof -
  have "a * b \<le> x ^ m * x ^ n"
    using assms by (intro mult_mono) simp_all
  also have "\<dots> = x ^ (m + n)"
    by (simp add: power_add)
  finally show ?thesis using assms by simp
qed

lemma square_upper:
  fixes x :: real
  assumes "x ^ n \<le> a" and "0 \<le> x" and "a * a \<le> b"
  shows "x ^ (2 * n) \<le> b"
proof -
  have low: "0 \<le> x ^ n" using assms by simp
  with assms have "0 \<le> a" by linarith
  have "x ^ (2 * n) = x ^ n * x ^ n"
    by (simp add: mult_2 power_add)
  also have "\<dots> \<le> a * a"
    using assms low \<open>0 \<le> a\<close> by (intro mult_mono) simp_all
  finally show ?thesis using assms by simp
qed

lemma power_400_lower:
  fixes x :: real
  assumes p1: "0.9985 \<le> x"
  shows "1 / 2 \<le> x ^ 400"
proof -
  have p2: "0.997 \<le> x ^ 2"
    using square_lower [of "0.9985" x 1 "0.997"] p1 by simp
  have p4: "0.994 \<le> x ^ 4"
    using square_lower [OF p2, of "0.994"] by simp
  have p8: "0.98803 \<le> x ^ 8"
    using square_lower [OF p4, of "0.98803"] by simp
  have p16: "0.9762 \<le> x ^ 16"
    using square_lower [OF p8, of "0.9762"] by simp
  have p32: "0.95296 \<le> x ^ 32"
    using square_lower [OF p16, of "0.95296"] by simp
  have p64: "0.90813 \<le> x ^ 64"
    using square_lower [OF p32, of "0.90813"] by simp
  have p128: "0.8247 \<le> x ^ 128"
    using square_lower [OF p64, of "0.8247"] by simp
  have p256: "0.68013 \<le> x ^ 256"
    using square_lower [OF p128, of "0.68013"] by simp
  have q384: "0.5609 \<le> x ^ 384"
    using product_lower [OF p256 p128, of "0.5609"] by simp
  have q400: "0.54755 \<le> x ^ 400"
    using product_lower [OF q384 p16, of "0.54755"] by simp
  from q400 show ?thesis by simp
qed
lemma power_600_upper:
  fixes x :: real
  assumes nonneg: "0 \<le> x"
    and p1: "x \<le> 0.99851"
  shows "x ^ 600 < 1 / 2"
proof -
  have p2: "x ^ 2 \<le> 0.99703"
    using square_upper [of x 1 "0.99851" "0.99703"] nonneg p1 by simp
  have p4: "x ^ 4 \<le> 0.99407"
    using square_upper [OF p2 nonneg, of "0.99407"] by simp
  have p8: "x ^ 8 \<le> 0.98818"
    using square_upper [OF p4 nonneg, of "0.98818"] by simp
  have p16: "x ^ 16 \<le> 0.9765"
    using square_upper [OF p8 nonneg, of "0.9765"] by simp
  have p32: "x ^ 32 \<le> 0.95356"
    using square_upper [OF p16 nonneg, of "0.95356"] by simp
  have p64: "x ^ 64 \<le> 0.90928"
    using square_upper [OF p32 nonneg, of "0.90928"] by simp
  have p128: "x ^ 128 \<le> 0.8268"
    using square_upper [OF p64 nonneg, of "0.8268"] by simp
  have p256: "x ^ 256 \<le> 0.6836"
    using square_upper [OF p128 nonneg, of "0.6836"] by simp
  have p512: "x ^ 512 \<le> 0.46731"
    using square_upper [OF p256 nonneg, of "0.46731"] by simp
  have "x \<le> 1" using p1 by simp
  with nonneg have "x ^ 600 \<le> x ^ 512"
    by (intro power_decreasing) simp_all
  with p512 show ?thesis by simp
qed
lemma power_600_lower:
  fixes x :: real
  assumes p1: "0.99895 \<le> x"
  shows "1 / 2 \<le> x ^ 600"
proof -
  have p2: "0.9979 \<le> x ^ 2"
    using square_lower [of "0.99895" x 1 "0.9979"] p1 by simp
  have p4: "0.9958 \<le> x ^ 4"
    using square_lower [OF p2, of "0.9958"] by simp
  have p8: "0.99161 \<le> x ^ 8"
    using square_lower [OF p4, of "0.99161"] by simp
  have p16: "0.98329 \<le> x ^ 16"
    using square_lower [OF p8, of "0.98329"] by simp
  have p32: "0.96685 \<le> x ^ 32"
    using square_lower [OF p16, of "0.96685"] by simp
  have p64: "0.93479 \<le> x ^ 64"
    using square_lower [OF p32, of "0.93479"] by simp
  have p128: "0.87383 \<le> x ^ 128"
    using square_lower [OF p64, of "0.87383"] by simp
  have p256: "0.76357 \<le> x ^ 256"
    using square_lower [OF p128, of "0.76357"] by simp
  have p512: "0.58303 \<le> x ^ 512"
    using square_lower [OF p256, of "0.58303"] by simp
  have q576: "0.54501 \<le> x ^ 576"
    using product_lower [OF p512 p64, of "0.54501"] by simp
  have q592: "0.5359 \<le> x ^ 592"
    using product_lower [OF q576 p16, of "0.5359"] by simp
  have q600: "0.5314 \<le> x ^ 600"
    using product_lower [OF q592 p8, of "0.5314"] by simp
  from q600 show ?thesis by simp
qed
lemma power_1200_upper:
  fixes x :: real
  assumes nonneg: "0 \<le> x"
    and p1: "x \<le> 0.99896"
  shows "x ^ 1200 < 1 / 2"
proof -
  have p2: "x ^ 2 \<le> 0.99793"
    using square_upper [of x 1 "0.99896" "0.99793"] nonneg p1 by simp
  have p4: "x ^ 4 \<le> 0.99587"
    using square_upper [OF p2 nonneg, of "0.99587"] by simp
  have p8: "x ^ 8 \<le> 0.99176"
    using square_upper [OF p4 nonneg, of "0.99176"] by simp
  have p16: "x ^ 16 \<le> 0.98359"
    using square_upper [OF p8 nonneg, of "0.98359"] by simp
  have p32: "x ^ 32 \<le> 0.96745"
    using square_upper [OF p16 nonneg, of "0.96745"] by simp
  have p64: "x ^ 64 \<le> 0.93596"
    using square_upper [OF p32 nonneg, of "0.93596"] by simp
  have p128: "x ^ 128 \<le> 0.87603"
    using square_upper [OF p64 nonneg, of "0.87603"] by simp
  have p256: "x ^ 256 \<le> 0.76743"
    using square_upper [OF p128 nonneg, of "0.76743"] by simp
  have p512: "x ^ 512 \<le> 0.58895"
    using square_upper [OF p256 nonneg, of "0.58895"] by simp
  have p1024: "x ^ 1024 \<le> 0.34687"
    using square_upper [OF p512 nonneg, of "0.34687"] by simp
  have "x \<le> 1" using p1 by simp
  with nonneg have "x ^ 1200 \<le> x ^ 1024"
    by (intro power_decreasing) simp_all
  with p1024 show ?thesis by simp
qed

lemma cents_minus_three:
  fixes x :: real
  assumes "0.9985 \<le> x" and "x \<le> 0.99851"
  shows "\<lfloor>1200 * log 2 x\<rfloor> = - 3"
proof -
  have pos: "0 < x" using assms by simp
  have "(1 / 2) ^ 3 \<le> (x ^ 400) ^ 3"
    using power_400_lower [OF assms(1)] by (intro power_mono) simp_all
  moreover have "(x ^ 400) ^ 3 = x ^ 1200"
    by (simp add: power_mult [symmetric])
  moreover have "(1 / 2 :: real) ^ 3 = 1 / 8"
    by (simp add: power_divide)
  ultimately have lower: "1 / 8 \<le> x ^ 1200"
    by (simp only:)
  have "(x ^ 600) ^ 2 < (1 / 2) ^ 2"
    using power_600_upper [OF _ assms(2)] pos by (intro power_strict_mono) simp_all
  moreover have "(x ^ 600) ^ 2 = x ^ 1200"
    by (simp add: power_mult [symmetric])
  moreover have "(1 / 2 :: real) ^ 2 = 1 / 4"
    by (simp add: power_divide)
  ultimately have upper: "x ^ 1200 < 1 / 4"
    by (simp only:)
  show ?thesis
    using lower upper by (simp add: cents_floor_iff [OF pos] powr_minus_divide)
qed

lemma cents_minus_two:
  fixes x :: real
  assumes "0.99895 \<le> x" and "x \<le> 0.99896"
  shows "\<lfloor>1200 * log 2 x\<rfloor> = - 2"
proof -
  have pos: "0 < x" using assms by simp
  have "(1 / 2) ^ 2 \<le> (x ^ 600) ^ 2"
    using power_600_lower [OF assms(1)] by (intro power_mono) simp_all
  moreover have "(x ^ 600) ^ 2 = x ^ 1200"
    by (simp add: power_mult [symmetric])
  moreover have "(1 / 2 :: real) ^ 2 = 1 / 4"
    by (simp add: power_divide)
  ultimately have lower: "1 / 4 \<le> x ^ 1200"
    by (simp only:)
  have upper: "x ^ 1200 < 1 / 2"
    using power_1200_upper [OF _ assms(2)] pos by simp
  show ?thesis
    using lower upper by (simp add: cents_floor_iff [OF pos] powr_minus_divide)
qed

lemma classify_E2: "getNoteAndCents 82.41 = \<lparr>note_label = ''E2'', cents = 0\<rparr>"
  by (simp add: getNoteAndCents_positive closest_def noteNames_def compare_note_def)

lemma classify_second: "getNoteAndCents 82.287 = \<lparr>note_label = ''E2'', cents = - 3\<rparr>"
proof -
  have "fst (closest 82.287 noteNames) = E2"
    by (simp add: closest_def noteNames_def compare_note_def)
  moreover have "\<lfloor>1200 * log 2 (82.287 / 82.41 :: real)\<rfloor> = - 3"
    by (rule cents_minus_three) simp_all
  ultimately show ?thesis
    by (simp add: getNoteAndCents_positive)
qed

lemma classify_third: "getNoteAndCents 82.3239 = \<lparr>note_label = ''E2'', cents = - 2\<rparr>"
proof -
  have "fst (closest 82.3239 noteNames) = E2"
    by (simp add: closest_def noteNames_def compare_note_def)
  moreover have "\<lfloor>1200 * log 2 (82.3239 / 82.41 :: real)\<rfloor> = - 2"
    by (rule cents_minus_two) simp_all
  ultimately show ?thesis
    by (simp add: getNoteAndCents_positive)
qed

text \<open>
  C9, as the code has it. The session with the estimates \<^verbatim>\<open>null\<close>, 82.41, 82.0, 82.41 records
  the frequencies 0, 82.41, 82.287, 82.3239 (the last is \<open>0.7 * 82.287 + 0.3 * 82.41\<close>) and the
  notes \<^verbatim>\<open>'--'\<close>, E2, E2, E2; the cents shown after the four ticks are 0, 0, -3, -2.
\<close>

theorem scenario_smoothed_sequence:
  "map frequency (chartDataRef (snd (session (Granted c a n)
        \<lparr>detected = NoPitch, now = w0, frame = r0\<rparr>
        [\<lparr>detected = Pitch 82.41, now = w1, frame = r1\<rparr>,
         \<lparr>detected = Pitch 82.0, now = w2, frame = r2\<rparr>,
         \<lparr>detected = Pitch 82.41, now = w3, frame = r3\<rparr>])))
     = [0, 82.41, 82.287, 82.3239]
   \<and> map point_note (chartDataRef (snd (session (Granted c a n)
        \<lparr>detected = NoPitch, now = w0, frame = r0\<rparr>
        [\<lparr>detected = Pitch 82.41, now = w1, frame = r1\<rparr>,
         \<lparr>detected = Pitch 82.0, now = w2, frame = r2\<rparr>,
         \<lparr>detected = Pitch 82.41, now = w3, frame = r3\<rparr>])))
     = [''--'', ''E2'', ''E2'', ''E2'']
   \<and> map (\<lambda>k. cents_state (snd (session (Granted c a n)
        \<lparr>detected = NoPitch, now = w0, frame = r0\<rparr>
        (take k [\<lparr>detected = Pitch 82.41, now = w1, frame = r1\<rparr>,
         \<lparr>detected = Pitch 82.0, now = w2, frame = r2\<rparr>,
         \<lparr>detected = Pitch 82.41, now = w3, frame = r3\<rparr>])))) [0, 1, 2, 3]
     = [0, 0, - 3, - 2]"
proof -
  have a: "getNoteAndCents (8241 / 100) = \<lparr>note_label = ''E2'', cents = 0\<rparr>"
    using classify_E2 by simp
  have b: "getNoteAndCents (82287 / 1000) = \<lparr>note_label = ''E2'', cents = - 3\<rparr>"
    using classify_second by simp
  have c: "getNoteAndCents (823239 / 10000) = \<lparr>note_label = ''E2'', cents = - 2\<rparr>"
    using classify_third by simp
  show ?thesis
    by (simp add: session_def animation_frame_def initializePitchDetection_def updatePitch_def
      smoothedPitch_def mounted_def Let_def a b c)
qed

text \<open>
  C9 as stated fails: the recorded frequencies are not 0, 82.41, 82.287, 82.3671.
\<close>

theorem scenario_fourth_value_differs:
  "map frequency (chartDataRef (snd (session (Granted 1 2 3)
        \<lparr>detected = NoPitch, now = 0, frame = 1\<rparr>
        [\<lparr>detected = Pitch 82.41, now = 16, frame = 2\<rparr>,
         \<lparr>detected = Pitch 82.0, now = 33, frame = 3\<rparr>,
         \<lparr>detected = Pitch 82.41, now = 50, frame = 4\<rparr>])))
     \<noteq> [0, 82.41, 82.287, 82.3671]"
  by (simp add: session_def animation_frame_def initializePitchDetection_def updatePitch_def
      smoothedPitch_def mounted_def Let_def)

section \<open>Teardown\<close>

lemma cleanup_perform: "cleanup throws s = perform throws (releases s) s"
proof (cases "audioSourceRef s"; cases "analyserRef s"; cases "audioContextRef s";
    cases "animationFrameRef s"; cases "playContextRef s")
qed (simp_all add: cleanup_def and_then_def invoke_def cancelled_def releases_def
      split: option.splits)

lemma perform_calls:
  "calls (snd (perform throws cs s)) = calls s @ takeWhile (\<lambda>c. throws c = None) cs"
  by (induction cs arbitrary: s) (auto simp: cancelled_def split: option.splits call.splits)

lemma perform_exception:
  "fst (perform throws cs s)
     = (case dropWhile (\<lambda>c. throws c = None) cs of
          [] \<Rightarrow> None
        | c # later \<Rightarrow> map_option Exception (throws c))"
  by (induction cs arbitrary: s) (auto split: option.splits)

lemma perform_touches:
  "\<exists>made pending. snd (perform throws cs s) = s\<lparr>pendingFrame := pending, calls := made\<rparr>"
proof (induction cs arbitrary: s)
  case Nil
  have "s = s\<lparr>pendingFrame := pendingFrame s, calls := calls s\<rparr>" by simp
  then show ?case by (metis perform.simps(1) snd_conv)
next
  case (Cons c cs)
  show ?case
  proof (cases "throws c")
    case None
    let ?s = "case c of
        CancelAnimationFrame request \<Rightarrow> snd (cancelled request (s\<lparr>calls := calls s @ [c]\<rparr>))
      | _ \<Rightarrow> s\<lparr>calls := calls s @ [c]\<rparr>"
    have "\<exists>made pending. ?s = s\<lparr>pendingFrame := pending, calls := made\<rparr>"
    proof (cases "\<exists>request. c = CancelAnimationFrame request \<and> pendingFrame s = Some request")
      case True
      then have "?s = s\<lparr>pendingFrame := None, calls := calls s @ [c]\<rparr>"
        by (auto simp: cancelled_def)
      then show ?thesis by blast
    next
      case False
      then have "?s = s\<lparr>pendingFrame := pendingFrame s, calls := calls s @ [c]\<rparr>"
        by (cases c) (auto simp: cancelled_def)
      then show ?thesis by blast
    qed
    then obtain made pending where step: "?s = s\<lparr>pendingFrame := pending, calls := made\<rparr>"
      by blast
    from Cons.IH [of ?s] obtain made' pending'
      where "snd (perform throws cs ?s) = ?s\<lparr>pendingFrame := pending', calls := made'\<rparr>"
      by blast
    then have "snd (perform throws (c # cs) s) = s\<lparr>pendingFrame := pending', calls := made'\<rparr>"
      using None by (simp add: step)
    then show ?thesis by blast
  next
    case (Some msg)
    have "s = s\<lparr>pendingFrame := pendingFrame s, calls := calls s\<rparr>" by simp
    with Some show ?thesis by (metis perform.simps(2) option.simps(5) snd_conv)
  qed
qed

lemma perform_releases: "releases (snd (perform throws cs s)) = releases s"
proof -
  obtain made pending where "snd (perform throws cs s) = s\<lparr>pendingFrame := pending, calls := made\<rparr>"
    using perform_touches by blast
  then show ?thesis by (simp add: releases_def)
qed

lemma takeWhile_always: "takeWhile (\<lambda>c. True) xs = xs"
  by (induction xs) simp_all

lemma dropWhile_always: "dropWhile (\<lambda>c. True) xs = []"
  by (induction xs) simp_all

text \<open>
  C6, as the code has it. \<open>cleanup\<close> makes the release calls of the handles that are set
  (disconnect the source, disconnect the analyser, close the audio context, cancel the
  animation frame request, close the context of the tone player), in this order, each
  behind a test of its handle only: a handle that is not set skips its own call and no
  other, and with no handle set (the session never became active) nothing is called and
  nothing is thrown, whatever the host would throw. No call is behind a \<^verbatim>\<open>try\<close>: the first
  call that throws ends the teardown with its exception and the calls after it are not
  made. No handle is cleared: a second teardown makes the same calls again; it throws
  nothing when no call throws.
\<close>

theorem cleanup_releases_in_order:
  "calls (snd (cleanup throws s)) = calls s @ takeWhile (\<lambda>c. throws c = None) (releases s)
   \<and> fst (cleanup throws s)
       = (case dropWhile (\<lambda>c. throws c = None) (releases s) of
            [] \<Rightarrow> None
          | c # later \<Rightarrow> map_option Exception (throws c))
   \<and> releases (snd (cleanup throws s)) = releases s
   \<and> (releases s = [] \<longrightarrow> cleanup throws s = (None, s))
   \<and> fst (cleanup (\<lambda>c. None) (snd (cleanup (\<lambda>c. None) s))) = None
   \<and> calls (snd (cleanup (\<lambda>c. None) (snd (cleanup (\<lambda>c. None) s))))
       = calls s @ releases s @ releases s"
  by (simp add: cleanup_perform perform_calls perform_exception perform_releases
      takeWhile_always dropWhile_always)

theorem cleanup_releases_in_order_witness:
  "cleanup (\<lambda>c. Some ''InvalidStateError'') mounted = (None, mounted)
   \<and> calls (snd (cleanup (\<lambda>c. None)
        (initializePitchDetection (Granted 1 2 3) \<lparr>detected = NoPitch, now = 0, frame = 7\<rparr> mounted)))
      = [SourceDisconnect 2, AnalyserDisconnect 3, AudioContextClose 1, CancelAnimationFrame 7]
   \<and> calls (snd (cleanup (\<lambda>c. None)
        ((initializePitchDetection (Granted 1 2 3) \<lparr>detected = NoPitch, now = 0, frame = 7\<rparr> mounted)
           \<lparr>analyserRef := None\<rparr>)))
      = [SourceDisconnect 2, AudioContextClose 1, CancelAnimationFrame 7]"
  using cleanup_releases_in_order [of "\<lambda>c. Some ''InvalidStateError''" mounted]
    cleanup_releases_in_order [of "\<lambda>c. None" "initializePitchDetection (Granted 1 2 3) \<lparr>detected = NoPitch, now = 0, frame = 7\<rparr> mounted"]
    cleanup_releases_in_order [of "\<lambda>c. None" "(initializePitchDetection (Granted 1 2 3) \<lparr>detected = NoPitch, now = 0, frame = 7\<rparr> mounted)
           \<lparr>analyserRef := None\<rparr>"]
  by (simp add: releases_def initializePitchDetection_def updatePitch_def mounted_def Let_def)

text \<open>
  C6 as stated fails: two teardowns of an active session make every release call twice;
  and when the first call throws, no other release is made.
\<close>

theorem cleanup_repeats_and_aborts:
  "calls (snd (cleanup (\<lambda>c. None) (snd (cleanup (\<lambda>c. None)
      (initializePitchDetection (Granted 1 2 3) \<lparr>detected = NoPitch, now = 0, frame = 7\<rparr> mounted)))))
     = [SourceDisconnect 2, AnalyserDisconnect 3, AudioContextClose 1, CancelAnimationFrame 7,
        SourceDisconnect 2, AnalyserDisconnect 3, AudioContextClose 1, CancelAnimationFrame 7]
   \<and> fst (cleanup (\<lambda>c. if c = SourceDisconnect 2 then Some ''InvalidStateError'' else None)
      (initializePitchDetection (Granted 1 2 3) \<lparr>detected = NoPitch, now = 0, frame = 7\<rparr> mounted))
     = Some (Exception ''InvalidStateError'')
   \<and> calls (snd (cleanup (\<lambda>c. if c = SourceDisconnect 2 then Some ''InvalidStateError'' else None)
      (initializePitchDetection (Granted 1 2 3) \<lparr>detected = NoPitch, now = 0, frame = 7\<rparr> mounted)))
     = []"
  by (simp add: cleanup_perform releases_def cancelled_def initializePitchDetection_def updatePitch_def
      mounted_def Let_def)

section \<open>The tone player\<close>

lemma single_flight_playing:
  assumes "playing s" and "playContextRef s \<noteq> None" and "k < length (tones s)"
    and "sounding (tones s ! k)"
    and "\<forall>j<length (tones s). j \<noteq> k \<longrightarrow> \<not> sounding (tones s ! j)"
    and "timers s = [Fade k] \<or> timers s = [Finish k]"
  shows "single_flight s"
proof -
  have "\<exists>k<length (tones s).
          sounding (tones s ! k)
        \<and> (\<forall>j<length (tones s). j \<noteq> k \<longrightarrow> \<not> sounding (tones s ! j))
        \<and> (timers s = [Fade k] \<or> timers s = [Finish k])"
    using assms(3-6) by (intro exI [of _ k] conjI) assumption+
  with assms(1,2) show ?thesis
    by (simp add: single_flight_def)
qed

lemma single_flight_idle:
  assumes "\<not> playing s" and "timers s = []" and "\<forall>j<length (tones s). \<not> sounding (tones s ! j)"
  shows "single_flight s"
  using assms by (simp add: single_flight_def)

lemma single_flight_playingD:
  assumes "single_flight s" and "playing s"
  shows "playContextRef s \<noteq> None
       \<and> (\<exists>k<length (tones s).
             sounding (tones s ! k)
           \<and> (\<forall>j<length (tones s). j \<noteq> k \<longrightarrow> \<not> sounding (tones s ! j))
           \<and> (timers s = [Fade k] \<or> timers s = [Finish k]))"
  using assms by (simp add: single_flight_def)

lemma single_flight_idleD:
  assumes "single_flight s" and "\<not> playing s"
  shows "timers s = []" and "\<forall>j<length (tones s). \<not> sounding (tones s ! j)"
  using assms by (simp_all add: single_flight_def)

lemma click_keeps:
  assumes "single_flight s"
  shows "single_flight (playFrequency (playing s) f c s)"
proof (cases "playing s")
  case True
  with assms show ?thesis by (simp add: playFrequency_def)
next
  case False
  note idle = single_flight_idleD [OF assms False]
  define s' where "s' = playFrequency (playing s) f c s"
  have new: "tones s' = tones s @ [\<lparr>tone_context = c, tone_frequency = f, gain = 0.4, sounding = True\<rparr>]"
    "timers s' = [Fade (length (tones s))]" "playing s'" "playContextRef s' = Some c"
    using False idle(1) by (simp_all add: s'_def playFrequency_def)
  have "single_flight s'"
  proof (rule single_flight_playing [of _ "length (tones s)"])
    show "playing s'" by (rule new)
    show "playContextRef s' \<noteq> None" by (simp add: new)
    show "length (tones s) < length (tones s')" by (simp add: new)
    show "sounding (tones s' ! length (tones s))" by (simp add: new)
    show "\<forall>j<length (tones s'). j \<noteq> length (tones s) \<longrightarrow> \<not> sounding (tones s' ! j)"
      using idle(2) by (auto simp: new nth_append less_Suc_eq)
    show "timers s' = [Fade (length (tones s))] \<or> timers s' = [Finish (length (tones s))]"
      by (simp add: new)
  qed
  then show ?thesis by (simp only: s'_def)
qed

lemma pending_means_playing:
  assumes "single_flight s" and "d \<in> set (timers s)"
  shows "playing s"
proof (rule ccontr)
  assume "\<not> playing s"
  from single_flight_idleD(1) [OF assms(1) this] assms(2) show False by simp
qed

lemma fade_keeps:
  assumes "single_flight s" and "Fade k \<in> set (timers s)"
  shows "fst (fade k (s\<lparr>timers := remove1 (Fade k) (timers s)\<rparr>)) = None
       \<and> single_flight (snd (fade k (s\<lparr>timers := remove1 (Fade k) (timers s)\<rparr>)))"
proof -
  have on: "playing s" by (rule pending_means_playing [OF assms])
  from single_flight_playingD [OF assms(1) on] obtain ctx i
    where held: "playContextRef s = Some ctx" and i: "i < length (tones s)"
      "sounding (tones s ! i)"
      "\<forall>j<length (tones s). j \<noteq> i \<longrightarrow> \<not> sounding (tones s ! j)"
      and one: "timers s = [Fade i] \<or> timers s = [Finish i]"
    by blast
  from one assms(2) have same: "i = k" by auto
  from one assms(2) have pending: "timers s = [Fade k]" by auto
  from i same have here: "k < length (tones s)"
    and sounds: "sounding (tones s ! k)"
    and only: "\<forall>j<length (tones s). j \<noteq> k \<longrightarrow> \<not> sounding (tones s ! j)"
    by simp_all
  define s' where "s' = snd (fade k (s\<lparr>timers := remove1 (Fade k) (timers s)\<rparr>))"
  have after: "tones s' = (tones s)[k := (tones s ! k)\<lparr>gain := 0\<rparr>]" "timers s' = [Finish k]"
    "playing s'" "playContextRef s' = Some ctx"
    using held pending on by (simp_all add: s'_def fade_def)
  have "single_flight s'"
  proof (rule single_flight_playing [of _ k])
    show "playing s'" by (rule after)
    show "playContextRef s' \<noteq> None" by (simp add: after)
    show "k < length (tones s')" using here by (simp add: after)
    show "sounding (tones s' ! k)" using here sounds by (simp add: after)
    show "\<forall>j<length (tones s'). j \<noteq> k \<longrightarrow> \<not> sounding (tones s' ! j)"
      using only by (simp add: after nth_list_update)
    show "timers s' = [Fade k] \<or> timers s' = [Finish k]" by (simp add: after)
  qed
  moreover have "fst (fade k (s\<lparr>timers := remove1 (Fade k) (timers s)\<rparr>)) = None"
    using held by (simp add: fade_def)
  ultimately show ?thesis by (simp only: s'_def simp_thms)
qed

lemma finish_keeps:
  assumes "single_flight s" and "Finish k \<in> set (timers s)"
  shows "fst (finish k (s\<lparr>timers := remove1 (Finish k) (timers s)\<rparr>)) = None
       \<and> single_flight (snd (finish k (s\<lparr>timers := remove1 (Finish k) (timers s)\<rparr>)))"
proof -
  have on: "playing s" by (rule pending_means_playing [OF assms])
  from single_flight_playingD [OF assms(1) on] obtain ctx i
    where held: "playContextRef s = Some ctx" and i: "i < length (tones s)"
      "\<forall>j<length (tones s). j \<noteq> i \<longrightarrow> \<not> sounding (tones s ! j)"
      and one: "timers s = [Fade i] \<or> timers s = [Finish i]"
    by blast
  from one assms(2) have same: "i = k" by auto
  from one assms(2) have pending: "timers s = [Finish k]" by auto
  from i same have here: "k < length (tones s)"
    and only: "\<forall>j<length (tones s). j \<noteq> k \<longrightarrow> \<not> sounding (tones s ! j)"
    by simp_all
  define s' where "s' = snd (finish k (s\<lparr>timers := remove1 (Finish k) (timers s)\<rparr>))"
  have after: "tones s' = (tones s)[k := (tones s ! k)\<lparr>sounding := False\<rparr>]" "timers s' = []"
    "\<not> playing s'"
    using held pending by (simp_all add: s'_def finish_def)
  have "\<forall>j<length (tones s'). \<not> sounding (tones s' ! j)"
    using only here by (auto simp: after nth_list_update)
  with after(2,3) have "single_flight s'"
    by (intro single_flight_idle)
  moreover have "fst (finish k (s\<lparr>timers := remove1 (Finish k) (timers s)\<rparr>)) = None"
    using held by (simp add: finish_def)
  ultimately show ?thesis by (simp only: s'_def simp_thms)
qed

lemma happen_keeps:
  assumes "single_flight s"
  shows "fst (happen e s) = None \<and> single_flight (snd (happen e s))"
proof (cases e)
  case (Click f c)
  then show ?thesis
    using click_keeps [OF assms] by (simp add: happen_def)
next
  case (Due d)
  show ?thesis
  proof (cases "d \<in> set (timers s)")
    case False
    with Due assms show ?thesis by (simp add: happen_def)
  next
    case True
    show ?thesis
    proof (cases d)
      case (Fade k)
      with True Due fade_keeps [OF assms, of k] show ?thesis
        by (simp add: happen_def)
    next
      case (Finish k)
      with True Due finish_keeps [OF assms, of k] show ?thesis
        by (simp add: happen_def)
    qed
  qed
qed

lemma happen_all_keeps:
  assumes "single_flight s"
  shows "fst (happen_all es s) = [] \<and> single_flight (snd (happen_all es s))"
  using assms
proof (induction es arbitrary: s)
  case Nil
  then show ?case by simp
next
  case (Cons e es)
  from happen_keeps [OF Cons.prems, of e] obtain s' where step: "happen e s = (None, s')"
    and kept: "single_flight s'"
    by (cases "happen e s") auto
  from Cons.IH [OF kept] show ?case
    by (simp add: step)
qed

lemma single_flight_sounding:
  assumes "single_flight s"
  shows "playing s \<longleftrightarrow> (\<exists>x\<in>set (tones s). sounding x)"
proof (cases "playing s")
  case True
  from single_flight_playingD [OF assms True] obtain k
    where "k < length (tones s)" and "sounding (tones s ! k)"
    by auto
  then have "\<exists>x\<in>set (tones s). sounding x"
    using nth_mem by blast
  with True show ?thesis by simp
next
  case False
  from single_flight_idleD(2) [OF assms False] have "\<not> (\<exists>x\<in>set (tones s). sounding x)"
    by (auto simp: in_set_conv_nth)
  with False show ?thesis by simp
qed

lemma single_flight_at_most_one:
  assumes "single_flight s" and "i < length (tones s)" and "j < length (tones s)"
    and "sounding (tones s ! i)" and "sounding (tones s ! j)"
  shows "i = j"
proof (cases "playing s")
  case True
  from single_flight_playingD [OF assms(1) True] obtain k
    where "\<forall>j<length (tones s). j \<noteq> k \<longrightarrow> \<not> sounding (tones s ! j)"
    by auto
  with assms(2-5) show ?thesis by auto
next
  case False
  from single_flight_idleD(2) [OF assms(1) False] assms(2,4) show ?thesis by auto
qed

text \<open>
  C8. From a state in which nothing plays, after any run of clicks and timeouts: no
  callback has thrown; at most one tone sounds; \<open>playing\<close> is set exactly while a tone
  sounds; a click while a tone sounds changes nothing (it is not queued and throws
  nothing); and two clicks one after the other start exactly one tone, the first. A click
  runs the \<^verbatim>\<open>playFrequency\<close> of the latest render, which sees the current \<open>playing\<close>.
\<close>

theorem tone_player_single_flight:
  assumes "\<not> playing s" and "timers s = []" and "\<forall>x\<in>set (tones s). \<not> sounding x"
  shows "fst (happen_all es s) = []
       \<and> (\<forall>i j. i < length (tones (snd (happen_all es s))) \<and> j < length (tones (snd (happen_all es s)))
              \<and> sounding (tones (snd (happen_all es s)) ! i) \<and> sounding (tones (snd (happen_all es s)) ! j)
            \<longrightarrow> i = j)
       \<and> (playing (snd (happen_all es s)) \<longleftrightarrow> (\<exists>x\<in>set (tones (snd (happen_all es s))). sounding x))
       \<and> ((\<exists>x\<in>set (tones (snd (happen_all es s))). sounding x) \<longrightarrow>
            happen (Click f c) (snd (happen_all es s)) = (None, snd (happen_all es s)))
       \<and> tones (snd (happen_all [Click f c, Click f' c'] s))
           = tones s @ [\<lparr>tone_context = c, tone_frequency = f, gain = 0.4, sounding = True\<rparr>]"
proof (intro conjI)
  have "\<forall>j<length (tones s). \<not> sounding (tones s ! j)"
    using assms(3) by simp
  with assms(1,2) have start: "single_flight s"
    by (intro single_flight_idle)
  define s' where "s' = snd (happen_all es s)"
  from happen_all_keeps [OF start, of es]
  have quiet: "fst (happen_all es s) = []" and kept: "single_flight s'"
    by (simp_all add: s'_def)
  show "fst (happen_all es s) = []" by (rule quiet)
  show "\<forall>i j. i < length (tones (snd (happen_all es s))) \<and> j < length (tones (snd (happen_all es s)))
              \<and> sounding (tones (snd (happen_all es s)) ! i) \<and> sounding (tones (snd (happen_all es s)) ! j)
            \<longrightarrow> i = j"
    using single_flight_at_most_one [OF kept] unfolding s'_def by blast
  have flag: "playing s' \<longleftrightarrow> (\<exists>x\<in>set (tones s'). sounding x)"
    by (rule single_flight_sounding [OF kept])
  then show "playing (snd (happen_all es s)) \<longleftrightarrow> (\<exists>x\<in>set (tones (snd (happen_all es s))). sounding x)"
    unfolding s'_def .
  have "(\<exists>x\<in>set (tones s'). sounding x) \<longrightarrow> happen (Click f c) s' = (None, s')"
    using flag by (simp add: happen_def playFrequency_def)
  then show "(\<exists>x\<in>set (tones (snd (happen_all es s))). sounding x) \<longrightarrow>
            happen (Click f c) (snd (happen_all es s)) = (None, snd (happen_all es s))"
    unfolding s'_def .
  show "tones (snd (happen_all [Click f c, Click f' c'] s))
           = tones s @ [\<lparr>tone_context = c, tone_frequency = f, gain = 0.4, sounding = True\<rparr>]"
    using assms(1) by (simp add: happen_def playFrequency_def)
qed

theorem tone_player_single_flight_witness:
  "tones (snd (happen_all [Click 82.41 5, Click 82.41 6] mounted))
     = [\<lparr>tone_context = 5, tone_frequency = 82.41, gain = 0.4, sounding = True\<rparr>]
   \<and> fst (happen_all [Click 82.41 5, Due (Fade 0), Click 82.41 6, Due (Finish 0), Click 82.41 7] mounted) = []
   \<and> map sounding (tones (snd (happen_all
        [Click 82.41 5, Due (Fade 0), Click 82.41 6, Due (Finish 0), Click 82.41 7] mounted)))
     = [False, True]"
  using tone_player_single_flight [of mounted "[Click 82.41 5, Due (Fade 0), Click 82.41 6, Due (Finish 0), Click 82.41 7]"
      "82.41" 5 "82.41" 6]
  by (simp add: mounted_def happen_def playFrequency_def fade_def finish_def)

end
